theory Spec2Isabelle
  imports Complex_Main
begin

section \<open>KD strategy B: indicator engine and per-symbol signal state machine\<close>

text \<open>
  A shallow embedding of \<^verbatim>\<open>kd_strategyB.py\<close>: the indicator computation
  (\<^verbatim>\<open>compute_kd_recursive\<close>, \<^verbatim>\<open>ma\<close>), the crossing detectors, the state store
  (\<^verbatim>\<open>load_state\<close>) and the per-symbol evaluation (\<^verbatim>\<open>process_symbol\<close>).

  Conventions of the embedding:
  \<^item> a Python/numpy float is a \<open>real option\<close>: \<open>None\<close> is NaN, \<open>Some x\<close> is the number
    \<open>x\<close>. Arithmetic is exact (rounding and infinities are not represented);
    every comparison with NaN is false, every arithmetic operation on NaN is NaN;
  \<^item> a pandas Series is the list of its values, a DataFrame the list of its rows;
  \<^item> exceptions are values of \<open>py_error\<close>, a function that can raise returns
    \<open>py_error + 'a\<close>;
  \<^item> the module-level tunables (\<^verbatim>\<open>K_PERIOD\<close>, \<^verbatim>\<open>ALPHA\<close>, \<^verbatim>\<open>DAILY_MA\<close>,
    \<^verbatim>\<open>WEEKLY_MA\<close>) are read from the environment, so they are fields of an explicit
    record passed to the functions that use them.
\<close>

subsection \<open>Floats with NaN\<close>

type_synonym pyfloat = "real option"

datatype py_error = ValueError | RuntimeError | TypeError

fun fsub :: "pyfloat \<Rightarrow> pyfloat \<Rightarrow> pyfloat" where
  "fsub (Some a) (Some b) = Some (a - b)"
| "fsub _ _ = None"

fun fmul :: "pyfloat \<Rightarrow> pyfloat \<Rightarrow> pyfloat" where
  "fmul (Some a) (Some b) = Some (a * b)"
| "fmul _ _ = None"

text \<open>Division is only ever applied to a denominator from which zero has been
  replaced by NaN (line 184), so the zero case below is never reached by the program.\<close>

fun fdiv :: "pyfloat \<Rightarrow> pyfloat \<Rightarrow> pyfloat" where
  "fdiv (Some a) (Some b) = (if b = 0 then None else Some (a / b))"
| "fdiv _ _ = None"

fun fgt :: "pyfloat \<Rightarrow> pyfloat \<Rightarrow> bool" where
  "fgt (Some a) (Some b) = (a > b)"
| "fgt _ _ = False"

fun fge :: "pyfloat \<Rightarrow> pyfloat \<Rightarrow> bool" where
  "fge (Some a) (Some b) = (a \<ge> b)"
| "fge _ _ = False"

fun flt :: "pyfloat \<Rightarrow> pyfloat \<Rightarrow> bool" where
  "flt (Some a) (Some b) = (a < b)"
| "flt _ _ = False"

fun fle :: "pyfloat \<Rightarrow> pyfloat \<Rightarrow> bool" where
  "fle (Some a) (Some b) = (a \<le> b)"
| "fle _ _ = False"

text \<open>\<^verbatim>\<open>Series.replace(0, np.nan)\<close>\<close>

fun replace0 :: "pyfloat \<Rightarrow> pyfloat" where
  "replace0 (Some a) = (if a = 0 then None else Some a)"
| "replace0 None = None"

subsection \<open>Bars and frames\<close>

type_synonym timestamp = int

record bar =
  idx :: timestamp
  High :: pyfloat
  Low :: pyfloat
  Close :: pyfloat

text \<open>A row after \<^verbatim>\<open>out["K"] = K; out["D"] = D\<close>.\<close>

record kd_bar = bar +
  K :: pyfloat
  D :: pyfloat

text \<open>A fetched DataFrame: \<open>req_cols\<close> says whether the columns High, Low and Close
  are all present after normalisation (line 176).\<close>

record frame =
  req_cols :: bool
  bars :: "bar list"

subsection \<open>pandas primitives used by the indicator engine\<close>

text \<open>
  \<^verbatim>\<open>Series.rolling(window=n, min_periods=n)\<close> followed by an aggregation: position
  \<open>i\<close> sees the \<open>n\<close> values at positions \<open>i-n+1..i\<close>; the result is NaN when fewer than
  \<open>n\<close> values are available or when one of them is NaN (fewer than \<open>min_periods\<close>
  observations). An empty window (\<open>n = 0\<close>) aggregates to NaN.
\<close>

definition window :: "nat \<Rightarrow> 'a list \<Rightarrow> nat \<Rightarrow> 'a list" where
  "window n xs i = take n (drop (i + 1 - n) xs)"

fun lmin :: "real list \<Rightarrow> real" where
  "lmin [] = 0"
| "lmin (x # xs) = fold min xs x"

fun lmax :: "real list \<Rightarrow> real" where
  "lmax [] = 0"
| "lmax (x # xs) = fold max xs x"

definition lmean :: "real list \<Rightarrow> real" where
  "lmean xs = sum_list xs / real (length xs)"

definition rolling :: "(real list \<Rightarrow> real) \<Rightarrow> nat \<Rightarrow> pyfloat list \<Rightarrow> pyfloat list" where
  "rolling agg n xs =
     map (\<lambda>i. if n = 0 \<or> i + 1 < n then None
              else map_option agg (those (window n xs i)))
         [0..<length xs]"

text \<open>
  \<^verbatim>\<open>Series.ewm(alpha=alpha, adjust=False).mean()\<close> with pandas' defaults
  \<^verbatim>\<open>ignore_na=False\<close> and \<^verbatim>\<open>min_periods=0\<close>. pandas carries two accumulators along
  the series, the running mean \<open>weighted\<close> and the weight \<open>old_wt\<close> of that mean:
  \<^item> while \<open>weighted\<close> is NaN, an observation seeds it and a NaN leaves it NaN;
  \<^item> once seeded, a NaN input multiplies \<open>old_wt\<close> by \<open>1 - alpha\<close> and leaves
    \<open>weighted\<close> as it is, and the output at that position is \<open>weighted\<close>;
  \<^item> once seeded, an observation \<open>cur\<close> multiplies \<open>old_wt\<close> by \<open>1 - alpha\<close>, replaces
    \<open>weighted\<close> by \<open>(old_wt * weighted + alpha * cur) / (old_wt + alpha)\<close> (skipped
    when \<open>weighted = cur\<close>), and resets \<open>old_wt\<close> to 1.
  pandas rejects \<open>alpha\<close> outside \<open>(0, 1]\<close> with a ValueError.
\<close>

fun ewm_step :: "real \<Rightarrow> pyfloat \<times> real \<Rightarrow> pyfloat \<Rightarrow> pyfloat \<times> real" where
  "ewm_step alpha (None, old_wt) cur = (cur, old_wt)"
| "ewm_step alpha (Some w, old_wt) None = (Some w, old_wt * (1 - alpha))"
| "ewm_step alpha (Some w, old_wt) (Some cur) =
     (let ow = old_wt * (1 - alpha)
      in (Some (if w \<noteq> cur then (ow * w + alpha * cur) / (ow + alpha) else w), 1))"

fun ewm_from :: "real \<Rightarrow> pyfloat \<times> real \<Rightarrow> pyfloat list \<Rightarrow> pyfloat list" where
  "ewm_from alpha acc [] = []"
| "ewm_from alpha acc (cur # rest) =
     (let acc' = ewm_step alpha acc cur in fst acc' # ewm_from alpha acc' rest)"

definition ewm_mean :: "real \<Rightarrow> pyfloat list \<Rightarrow> py_error + pyfloat list" where
  "ewm_mean alpha xs =
     (if 0 < alpha \<and> alpha \<le> 1 then Inr (ewm_from alpha (None, 1) xs) else Inl ValueError)"

subsection \<open>Indicators (lines 174-202)\<close>

definition lowest_n :: "bar list \<Rightarrow> nat \<Rightarrow> pyfloat list" where
  "lowest_n bs n = rolling lmin n (map Low bs)"

definition highest_n :: "bar list \<Rightarrow> nat \<Rightarrow> pyfloat list" where
  "highest_n bs n = rolling lmax n (map High bs)"

definition denom :: "bar list \<Rightarrow> nat \<Rightarrow> pyfloat list" where
  "denom bs n = map replace0 (map2 fsub (highest_n bs n) (lowest_n bs n))"

definition rsv :: "bar list \<Rightarrow> nat \<Rightarrow> pyfloat list" where
  "rsv bs n =
     map2 fdiv (map (fmul (Some 100)) (map2 fsub (map Close bs) (lowest_n bs n))) (denom bs n)"

definition with_kd :: "bar \<Rightarrow> pyfloat \<Rightarrow> pyfloat \<Rightarrow> kd_bar" where
  "with_kd b k d = \<lparr>idx = idx b, High = High b, Low = Low b, Close = Close b, K = k, D = d\<rparr>"

definition compute_kd_recursive :: "frame \<Rightarrow> nat \<Rightarrow> real \<Rightarrow> py_error + kd_bar list" where
  "compute_kd_recursive df n alpha =
     (if \<not> req_cols df then Inl ValueError
      else case ewm_mean alpha (rsv (bars df) n) of
             Inl e \<Rightarrow> Inl e
           | Inr Ks \<Rightarrow>
               (case ewm_mean alpha Ks of
                  Inl e \<Rightarrow> Inl e
                | Inr Ds \<Rightarrow> Inr (map (\<lambda>(b, k, d). with_kd b k d) (zip (bars df) (zip Ks Ds)))))"

definition ma :: "pyfloat list \<Rightarrow> nat \<Rightarrow> pyfloat list" where
  "ma series n = rolling lmean n series"

definition crossed_up :: "pyfloat \<Rightarrow> pyfloat \<Rightarrow> pyfloat \<Rightarrow> pyfloat \<Rightarrow> bool" where
  "crossed_up k_prev d_prev k d = (fle k_prev d_prev \<and> fgt k d)"

definition crossed_down :: "pyfloat \<Rightarrow> pyfloat \<Rightarrow> pyfloat \<Rightarrow> pyfloat \<Rightarrow> bool" where
  "crossed_down k_prev d_prev k d = (fge k_prev d_prev \<and> flt k d)"

subsection \<open>State store (lines 70-84)\<close>

text \<open>
  One symbol's persisted state, a JSON object: \<open>position\<close> is what
  \<^verbatim>\<open>sym_state.get("position")\<close> returns (\<open>None\<close> when the key is absent), \<open>alerts\<close>
  is the mapping from idempotency key to flag (\<open>None\<close> when the key \<^verbatim>\<open>"alerts"\<close> is
  absent), \<open>last_entry\<close> the optional timestamp text. The whole store maps symbols
  to such objects.
\<close>

record sym_state =
  position :: "string option"
  alerts :: "(string \<rightharpoonup> bool) option"
  last_entry :: "string option"

type_synonym state = "string \<rightharpoonup> sym_state"

text \<open>
  What \<^verbatim>\<open>load_state\<close> finds: no file at \<^verbatim>\<open>STATE_FILE\<close>, a file whose opening or
  parsing raises some exception (all are caught by \<^verbatim>\<open>except Exception\<close>), or a file
  that parses to a store; the parsed value is returned as it is.
\<close>

datatype state_file = NoFile | Unreadable py_error | Parsed state

definition load_state :: "state_file \<Rightarrow> py_error + state" where
  "load_state f =
     (case f of
        NoFile \<Rightarrow> Inr Map.empty
      | Unreadable e \<Rightarrow> Inr Map.empty
      | Parsed st \<Rightarrow> Inr st)"

subsection \<open>Per-symbol evaluation (lines 220-332)\<close>

text \<open>
  The tunables, and the two timestamp renderings the evaluation uses:
  \<open>local_date\<close> is
  \<^verbatim>\<open>pd.Timestamp(ts).tz_localize("UTC").tz_convert(TZ_NAME).strftime("%Y-%m-%d")\<close>
  and \<open>ts_str\<close> is \<^verbatim>\<open>str(ts)\<close>; both depend on the time-zone database and are taken
  as given. Bar timestamps are the time-zone-naive index values that the daily and
  weekly downloads carry. The periods are natural numbers: a negative window, which
  pandas rejects, is outside the type.
\<close>

record settings =
  K_PERIOD :: nat
  ALPHA :: real
  DAILY_MA :: nat
  WEEKLY_MA :: nat
  local_date :: "timestamp \<Rightarrow> string"
  ts_str :: "timestamp \<Rightarrow> string"

text \<open>The local variables of \<^verbatim>\<open>process_symbol\<close> that the rules read (lines 242-257).\<close>

record signals =
  k_prev :: pyfloat
  dprev_prev :: pyfloat
  k_last :: pyfloat
  d_last_d :: pyfloat
  d_close :: pyfloat
  d_ma20 :: pyfloat
  d_ts :: timestamp
  w_idx :: timestamp
  w_k :: pyfloat
  w_d :: pyfloat
  w_close :: pyfloat
  w_ma20 :: pyfloat

text \<open>\<^verbatim>\<open>.dropna(subset=["K","D"])\<close>\<close>

definition dropna :: "kd_bar list \<Rightarrow> kd_bar list" where
  "dropna rows = filter (\<lambda>r. K r \<noteq> None \<and> D r \<noteq> None) rows"

definition weekly_completed_row :: "kd_bar list \<Rightarrow> kd_bar option" where
  "weekly_completed_row df_w =
     (if length df_w < 2 then None else Some (df_w ! (length df_w - 2)))"

text \<open>
  \<^verbatim>\<open>float(series.loc[label]) if label in series.index else float("nan")\<close>: a label
  that occurs once selects its value; a label that occurs several times selects a
  Series, which \<^verbatim>\<open>float\<close> rejects.
\<close>

definition loc :: "(timestamp \<times> pyfloat) list \<Rightarrow> timestamp \<Rightarrow> py_error + pyfloat" where
  "loc series label =
     (case filter (\<lambda>(t, v). t = label) series of
        [] \<Rightarrow> Inr None
      | [(t, v)] \<Rightarrow> Inr v
      | _ \<Rightarrow> Inl TypeError)"

text \<open>Lines 225-257: \<open>Inr None\<close> is one of the \<^verbatim>\<open>[SKIP]\<close> returns.\<close>

definition indicators :: "settings \<Rightarrow> frame \<Rightarrow> frame \<Rightarrow> py_error + signals option" where
  "indicators cfg df_d df_w =
     (let need_d = max (DAILY_MA cfg + 2) (K_PERIOD cfg + 2);
          need_w = max (WEEKLY_MA cfg + 2) (K_PERIOD cfg + 2)
      in if length (bars df_d) < need_d \<or> length (bars df_w) < need_w then Inr None
         else case compute_kd_recursive df_d (K_PERIOD cfg) (ALPHA cfg) of
           Inl e \<Rightarrow> Inl e
         | Inr kd_d \<Rightarrow>
            (let d_kd = dropna kd_d
             in if length d_kd < 2 then Inr None
                else case compute_kd_recursive df_w (K_PERIOD cfg) (ALPHA cfg) of
                  Inl e \<Rightarrow> Inl e
                | Inr kd_w \<Rightarrow>
                   (let w_kd = dropna kd_w
                    in if length w_kd < 2 then Inr None
                       else
                        (let d_prev = d_kd ! (length d_kd - 2);
                             d_last = d_kd ! (length d_kd - 1);
                             d_ma = last (ma (map Close d_kd) (DAILY_MA cfg))
                         in case weekly_completed_row w_kd of
                              None \<Rightarrow> Inr None
                            | Some w_row \<Rightarrow>
                               (if K w_row = None \<or> D w_row = None then Inr None
                                else case loc (zip (map idx w_kd)
                                                   (ma (map Close w_kd) (WEEKLY_MA cfg)))
                                              (idx w_row) of
                                  Inl e \<Rightarrow> Inl e
                                | Inr w_ma \<Rightarrow>
                                    Inr (Some \<lparr>k_prev = K d_prev, dprev_prev = D d_prev,
                                               k_last = K d_last, d_last_d = D d_last,
                                               d_close = Close d_last, d_ma20 = d_ma,
                                               d_ts = idx d_last, w_idx = idx w_row,
                                               w_k = K w_row, w_d = D w_row,
                                               w_close = Close w_row, w_ma20 = w_ma\<rparr>))))))"

text \<open>Lines 259-262.\<close>

definition weekly_ok :: "signals \<Rightarrow> bool" where
  "weekly_ok sg =
     (fgt (w_k sg) (w_d sg) \<and> fge (w_k sg) (Some 50)
      \<and> (w_ma20 sg \<noteq> None \<and> fgt (w_close sg) (w_ma20 sg)))"

definition entry_cross :: "signals \<Rightarrow> bool" where
  "entry_cross sg = crossed_up (k_prev sg) (dprev_prev sg) (k_last sg) (d_last_d sg)"

definition exit_cross :: "signals \<Rightarrow> bool" where
  "exit_cross sg = crossed_down (k_prev sg) (dprev_prev sg) (k_last sg) (d_last_d sg)"

definition daily_trend_ok :: "signals \<Rightarrow> bool" where
  "daily_trend_ok sg = fgt (d_close sg) (d_ma20 sg)"

text \<open>
  The effects of one evaluation, in order: a call \<^verbatim>\<open>send_to(recipients, msg)\<close> with
  the message of one of the three rules for the symbol, and a call
  \<^verbatim>\<open>save_state(state)\<close> with the store as it is at that moment. The text of the
  message is not represented; lines 264-271 only build its optional annotation
  line (from a configuration whose \<^verbatim>\<open>features.institutions\<close> entry is a mapping, as
  \<^verbatim>\<open>load_config\<close> provides it) and catch the failures of the annotation source.
  \<^verbatim>\<open>send_to\<close> delivers to each recipient, does nothing for an empty set and catches
  the failures of the push; writing the state file is taken to succeed.
\<close>

datatype kind = Entry | Reduce | Exit

datatype event = SendTo "string set" kind string | SaveState state

text \<open>
  The mutable variables of the rule part: the store \<^verbatim>\<open>state\<close>, the symbol's object
  \<^verbatim>\<open>sym_state\<close>, the mapping \<^verbatim>\<open>alerts\<close>, and the effects so far. Each symbol's
  object in a loaded store is an object of its own and the default object is
  created by the call, so updating \<^verbatim>\<open>sym_state\<close> and \<^verbatim>\<open>alerts\<close> in place reaches
  no other symbol's entry.
\<close>

record machine =
  cur_state :: state
  cur_sym_state :: sym_state
  cur_alerts :: "string \<rightharpoonup> bool"
  trace :: "event list"

definition send_to :: "string set \<Rightarrow> kind \<Rightarrow> string \<Rightarrow> machine \<Rightarrow> machine" where
  "send_to recipients k symbol m = m\<lparr>trace := trace m @ [SendTo recipients k symbol]\<rparr>"

definition save_state :: "machine \<Rightarrow> machine" where
  "save_state m = m\<lparr>trace := trace m @ [SaveState (cur_state m)]\<rparr>"

text \<open>Line 273.\<close>

definition get_sym_state :: "state \<Rightarrow> string \<Rightarrow> sym_state" where
  "get_sym_state st symbol =
     (case st symbol of
        None \<Rightarrow> \<lparr>position = Some ''flat'', alerts = Some Map.empty, last_entry = None\<rparr>
      | Some s \<Rightarrow> s)"

text \<open>Line 274.\<close>

definition get_alerts :: "sym_state \<Rightarrow> string \<rightharpoonup> bool" where
  "get_alerts s = (case alerts s of None \<Rightarrow> Map.empty | Some a \<Rightarrow> a)"

definition alerted :: "machine \<Rightarrow> string \<Rightarrow> bool" where
  "alerted m key = (case cur_alerts m key of None \<Rightarrow> False | Some b \<Rightarrow> b)"

definition mark_alert :: "string \<Rightarrow> string \<Rightarrow> machine \<Rightarrow> machine" where
  "mark_alert symbol key m =
     (let alerts' = (cur_alerts m)(key \<mapsto> True);
          sym_state' = (cur_sym_state m)\<lparr>alerts := Some alerts'\<rparr>
      in save_state (m\<lparr>cur_alerts := alerts', cur_sym_state := sym_state',
                       cur_state := (cur_state m)(symbol \<mapsto> sym_state')\<rparr>))"

text \<open>Lines 286-298, the body of the Entry branch.\<close>

definition entry_rule :: "settings \<Rightarrow> string \<Rightarrow> string set \<Rightarrow> signals \<Rightarrow> machine \<Rightarrow> machine" where
  "entry_rule cfg symbol recipients sg m =
     (let m1 = send_to recipients Entry symbol m;
          sym_state' = (cur_sym_state m1)\<lparr>position := Some ''long'',
                                          last_entry := Some (ts_str cfg (d_ts sg))\<rparr>
      in save_state (m1\<lparr>cur_sym_state := sym_state',
                        cur_state := (cur_state m1)(symbol \<mapsto> sym_state')\<rparr>))"

text \<open>Lines 300-310; \<open>reduce_due\<close> is the condition of line 303.\<close>

definition ex_key :: "settings \<Rightarrow> signals \<Rightarrow> string" where
  "ex_key cfg sg = ''daily_exit@'' @ local_date cfg (d_ts sg)"

definition reduce_due :: "settings \<Rightarrow> machine \<Rightarrow> signals \<Rightarrow> bool" where
  "reduce_due cfg m sg =
     (position (cur_sym_state m) = Some ''long'' \<and> exit_cross sg
      \<and> \<not> alerted m (ex_key cfg sg))"

definition reduce_rule :: "settings \<Rightarrow> string \<Rightarrow> string set \<Rightarrow> signals \<Rightarrow> machine \<Rightarrow> machine" where
  "reduce_rule cfg symbol recipients sg m =
     (if reduce_due cfg m sg
      then mark_alert symbol (ex_key cfg sg) (send_to recipients Reduce symbol m)
      else m)"

text \<open>Lines 312-325; \<open>exit_due\<close> is the condition of line 316.\<close>

definition full_key :: "settings \<Rightarrow> signals \<Rightarrow> string" where
  "full_key cfg sg = ''weekly_off@'' @ local_date cfg (w_idx sg)"

definition exit_due :: "settings \<Rightarrow> machine \<Rightarrow> signals \<Rightarrow> bool" where
  "exit_due cfg m sg =
     (let weekly_off = \<not> weekly_ok sg
      in position (cur_sym_state m) = Some ''long'' \<and> weekly_off
         \<and> \<not> alerted m (full_key cfg sg))"

definition exit_rule :: "settings \<Rightarrow> string \<Rightarrow> string set \<Rightarrow> signals \<Rightarrow> machine \<Rightarrow> machine" where
  "exit_rule cfg symbol recipients sg m =
     (if exit_due cfg m sg
      then (let m1 = send_to recipients Exit symbol m;
                sym_state' = (cur_sym_state m1)\<lparr>position := Some ''flat''\<rparr>
            in save_state (m1\<lparr>cur_sym_state := sym_state',
                              cur_state := (cur_state m1)(symbol \<mapsto> sym_state')\<rparr>))
      else m)"

text \<open>Lines 273-274: the variables as the rules find them.\<close>

definition init_machine :: "state \<Rightarrow> string \<Rightarrow> machine" where
  "init_machine st symbol =
     (let sym_state0 = get_sym_state st symbol
      in \<lparr>cur_state = st, cur_sym_state = sym_state0,
          cur_alerts = get_alerts sym_state0, trace = []\<rparr>)"

text \<open>Line 286: the condition of the Entry branch.\<close>

definition entry_due :: "machine \<Rightarrow> signals \<Rightarrow> bool" where
  "entry_due m sg =
     (position (cur_sym_state m) = Some ''flat'' \<and> weekly_ok sg \<and> entry_cross sg
      \<and> daily_trend_ok sg)"

text \<open>Lines 273-332: the rules in their order; Entry returns before the other two.\<close>

definition rules :: "settings \<Rightarrow> string \<Rightarrow> string set \<Rightarrow> state \<Rightarrow> signals \<Rightarrow> machine" where
  "rules cfg symbol recipients st sg =
     (let m0 = init_machine st symbol
      in if entry_due m0 sg
         then entry_rule cfg symbol recipients sg m0
         else exit_rule cfg symbol recipients sg (reduce_rule cfg symbol recipients sg m0))"

text \<open>What the caller can observe of one evaluation: the effects and the store.\<close>

record outcome =
  events :: "event list"
  state_after :: state

text \<open>
  \<^verbatim>\<open>process_symbol\<close>. The two arguments \<open>fetch_d\<close> and \<open>fetch_w\<close> are the results of
  \<^verbatim>\<open>last_completed_daily(fetch_ohlc(sym, "1d"))\<close> and \<^verbatim>\<open>fetch_ohlc(sym, "1wk")\<close>:
  the exception the download raised, or the frame.
\<close>

definition process_symbol ::
  "settings \<Rightarrow> string \<Rightarrow> string set \<Rightarrow> state \<Rightarrow> py_error + frame \<Rightarrow> py_error + frame
     \<Rightarrow> py_error + outcome" where
  "process_symbol cfg symbol recipients st fetch_d fetch_w =
     (case fetch_d of
        Inl e \<Rightarrow> Inl e
      | Inr df_d \<Rightarrow>
         (case fetch_w of
            Inl e \<Rightarrow> Inl e
          | Inr df_w \<Rightarrow>
             (case indicators cfg df_d df_w of
                Inl e \<Rightarrow> Inl e
              | Inr None \<Rightarrow> Inr \<lparr>events = [], state_after = st\<rparr>
              | Inr (Some sg) \<Rightarrow>
                  (let m = rules cfg symbol recipients st sg
                   in Inr \<lparr>events = trace m, state_after = cur_state m\<rparr>))))"

subsection \<open>The batch driver (lines 345-349)\<close>

text \<open>
  One pass of the loop body per element: a symbol with its recipients and the two
  fetch results. An exception of \<^verbatim>\<open>process_symbol\<close> is caught and logged, and the
  loop goes on with the store as it is. Every exception of the model is raised
  before the rules run, so the store is then the one the evaluation started with.
  A later run of the program starts from the store the earlier run saved, so a
  sequence of runs is a longer list.
\<close>

type_synonym job = "string \<times> string set \<times> (py_error + frame) \<times> (py_error + frame)"

fun main_loop :: "settings \<Rightarrow> state \<Rightarrow> job list \<Rightarrow> event list \<times> state" where
  "main_loop cfg st [] = ([], st)"
| "main_loop cfg st ((symbol, recipients, fetch_d, fetch_w) # rest) =
     (case process_symbol cfg symbol recipients st fetch_d fetch_w of
        Inl e \<Rightarrow> main_loop cfg st rest
      | Inr out \<Rightarrow>
          (let (evs, st') = main_loop cfg (state_after out) rest
           in (events out @ evs, st')))"

subsection \<open>Observations used in the statements\<close>

text \<open>The kinds of the alerts sent for one symbol, in order.\<close>

fun fired :: "string \<Rightarrow> event list \<Rightarrow> kind list" where
  "fired s [] = []"
| "fired s (SendTo rc k s' # es) = (if s' = s then k # fired s es else fired s es)"
| "fired s (SaveState st # es) = fired s es"

text \<open>
  A sequence of alert kinds in which no Entry follows an Entry without an Exit in
  between; \<open>holding\<close> says whether an Entry is already open at the start.
\<close>

fun entry_needs_exit :: "bool \<Rightarrow> kind list \<Rightarrow> bool" where
  "entry_needs_exit holding [] = True"
| "entry_needs_exit holding (Entry # ks) = (\<not> holding \<and> entry_needs_exit True ks)"
| "entry_needs_exit holding (Exit # ks) = entry_needs_exit False ks"
| "entry_needs_exit holding (Reduce # ks) = entry_needs_exit holding ks"

subsection \<open>The recursive mean as the specification words it\<close>

text \<open>
  The explicit seeded fold of the specification: \<open>K(i) = alpha * RSV(i) + (1 - alpha) * K(i-1)\<close>,
  seeded with the first defined input (no prior smoothing); an undefined input
  gives an undefined output, and the next defined input seeds the mean again.
  The argument \<open>prev\<close> is the previous output.
\<close>

fun spec_recursive_mean :: "real \<Rightarrow> pyfloat \<Rightarrow> pyfloat list \<Rightarrow> pyfloat list" where
  "spec_recursive_mean alpha prev [] = []"
| "spec_recursive_mean alpha prev (None # xs) = None # spec_recursive_mean alpha None xs"
| "spec_recursive_mean alpha None (Some x # xs) = Some x # spec_recursive_mean alpha (Some x) xs"
| "spec_recursive_mean alpha (Some k) (Some x # xs) =
     Some (alpha * x + (1 - alpha) * k)
       # spec_recursive_mean alpha (Some (alpha * x + (1 - alpha) * k)) xs"

text \<open>
  A series with no undefined value after its first defined one; \<open>seeded\<close> says
  whether a defined value has been seen.
\<close>

fun gap_free :: "bool \<Rightarrow> pyfloat list \<Rightarrow> bool" where
  "gap_free seeded [] = True"
| "gap_free seeded (None # xs) = (\<not> seeded \<and> gap_free False xs)"
| "gap_free seeded (Some x # xs) = gap_free True xs"

subsection \<open>Example inputs\<close>

text \<open>
  Bars with high 100 and low 0, so that RSV is the close once the window is full;
  timestamps count days from 0, rendered as days of January 2024.
\<close>

definition mkbar :: "timestamp \<Rightarrow> real \<Rightarrow> real \<Rightarrow> real \<Rightarrow> bar" where
  "mkbar t h l c = \<lparr>idx = t, High = Some h, Low = Some l, Close = Some c\<rparr>"

definition series :: "real list \<Rightarrow> frame" where
  "series closes =
     \<lparr>req_cols = True,
      bars = map (\<lambda>(t, c). mkbar (int t) 100 0 c) (zip [0..<length closes] closes)\<rparr>"

definition digit2 :: "int \<Rightarrow> string" where
  "digit2 n = [''0123456789'' ! nat (n div 10 mod 10), ''0123456789'' ! nat (n mod 10)]"

definition ex_date :: "timestamp \<Rightarrow> string" where
  "ex_date t = ''2024-01-'' @ digit2 (t + 1)"

definition ex_ts :: "timestamp \<Rightarrow> string" where
  "ex_ts t = ex_date t @ '' 00:00:00''"

text \<open>The default tunables (with \<open>ALPHA\<close> the exact third).\<close>

definition ex_cfg :: settings where
  "ex_cfg = \<lparr>K_PERIOD = 9, ALPHA = 1 / 3, DAILY_MA = 20, WEEKLY_MA = 20,
             local_date = ex_date, ts_str = ex_ts\<rparr>"

definition daily_up :: frame where
  "daily_up = series (replicate 28 50 @ [40, 80])"

definition daily_down :: frame where
  "daily_down = series (replicate 28 50 @ [60, 20])"

definition weekly_on :: frame where
  "weekly_on = series (replicate 28 50 @ [90, 90])"

definition weekly_off :: frame where
  "weekly_off = series (replicate 28 50 @ [10, 10])"

definition short_frame :: frame where
  "short_frame = series (replicate 10 50)"

text \<open>What lines 242-257 compute from these frames.\<close>

definition sg_up_on :: signals where
  "sg_up_on =
     \<lparr>k_prev = Some (140 / 3), dprev_prev = Some (440 / 9), k_last = Some (520 / 9),
      d_last_d = Some (1400 / 27), d_close = Some 80, d_ma20 = Some 51, d_ts = 29,
      w_idx = 28, w_k = Some (190 / 3), w_d = Some (490 / 9), w_close = Some 90,
      w_ma20 = Some 52\<rparr>"

definition sg_down_on :: signals where
  "sg_down_on =
     \<lparr>k_prev = Some (160 / 3), dprev_prev = Some (460 / 9), k_last = Some (380 / 9),
      d_last_d = Some (1300 / 27), d_close = Some 20, d_ma20 = Some 49, d_ts = 29,
      w_idx = 28, w_k = Some (190 / 3), w_d = Some (490 / 9), w_close = Some 90,
      w_ma20 = Some 52\<rparr>"

definition sg_down_off :: signals where
  "sg_down_off =
     \<lparr>k_prev = Some (160 / 3), dprev_prev = Some (460 / 9), k_last = Some (380 / 9),
      d_last_d = Some (1300 / 27), d_close = Some 20, d_ma20 = Some 49, d_ts = 29,
      w_idx = 28, w_k = Some (110 / 3), w_d = Some (410 / 9), w_close = Some 10,
      w_ma20 = Some 48\<rparr>"

text \<open>
  A store that knows one other symbol, and the stores after an Entry, then a
  Reduce, then an Exit for \<open>2330.TW\<close>.
\<close>

definition other_state :: sym_state where
  "other_state = \<lparr>position = Some ''long'',
                  alerts = Some [''daily_exit@2024-01-10'' \<mapsto> True],
                  last_entry = Some ''2024-01-05 00:00:00''\<rparr>"

definition book0 :: state where
  "book0 = [''2317.TW'' \<mapsto> other_state]"

definition book1 :: state where
  "book1 = book0(''2330.TW'' \<mapsto>
     \<lparr>position = Some ''long'', alerts = Some Map.empty,
      last_entry = Some ''2024-01-30 00:00:00''\<rparr>)"

definition book2 :: state where
  "book2 = book0(''2330.TW'' \<mapsto>
     \<lparr>position = Some ''long'', alerts = Some [''daily_exit@2024-01-30'' \<mapsto> True],
      last_entry = Some ''2024-01-30 00:00:00''\<rparr>)"

definition book3 :: state where
  "book3 = book0(''2330.TW'' \<mapsto>
     \<lparr>position = Some ''flat'', alerts = Some [''daily_exit@2024-01-30'' \<mapsto> True],
      last_entry = Some ''2024-01-30 00:00:00''\<rparr>)"

text \<open>
  Eleven bars: one with range 0..10, nine flat bars at 5, one with range 0..10.
  With a window of nine the window ending at position 9 is flat.
\<close>

definition flat_gap :: frame where
  "flat_gap =
     \<lparr>req_cols = True,
      bars = mkbar 0 10 0 5 # map (\<lambda>t. mkbar (int t) 5 5 5) [1..<10] @ [mkbar 10 10 0 10]\<rparr>"

definition flat_gap_kd :: "kd_bar list" where
  "flat_gap_kd =
     map (\<lambda>(b, k, d). with_kd b k d)
       (zip (bars flat_gap)
          (zip (replicate 8 None @ [Some 50, Some 50, Some (500 / 7)])
               (replicate 8 None @ [Some 50, Some 50, Some (400 / 7)])))"

definition three_bars :: frame where
  "three_bars = series [50, 40, 80]"

definition three_bars_kd :: "kd_bar list" where
  "three_bars_kd =
     map (\<lambda>(b, k, d). with_kd b k d)
       (zip (bars three_bars)
          (zip [Some 50, Some 45, Some (125 / 2)] [Some 50, Some (95 / 2), Some 55]))"

section \<open>Indicator engine\<close>

subsection \<open>Lengths and columns\<close>

lemma length_rolling [simp]: "length (rolling agg n xs) = length xs"
  by (simp add: rolling_def)

lemma length_lowest_n [simp]: "length (lowest_n bs n) = length bs"
  by (simp add: lowest_n_def)

lemma length_highest_n [simp]: "length (highest_n bs n) = length bs"
  by (simp add: highest_n_def)

lemma length_denom [simp]: "length (denom bs n) = length bs"
  by (simp add: denom_def)

lemma length_rsv [simp]: "length (rsv bs n) = length bs"
  by (simp add: rsv_def)

lemma length_ewm_from [simp]: "length (ewm_from alpha acc xs) = length xs"
  by (induction xs arbitrary: acc) (simp_all add: Let_def)

lemma map_K_zip:
  "length bs = length ks \<Longrightarrow> length ks = length ds \<Longrightarrow>
   map K (map (\<lambda>(b, k, d). with_kd b k d) (zip bs (zip ks ds))) = ks"
  by (induction bs ks ds rule: list_induct3) (simp_all add: with_kd_def)

lemma map_D_zip:
  "length bs = length ks \<Longrightarrow> length ks = length ds \<Longrightarrow>
   map D (map (\<lambda>(b, k, d). with_kd b k d) (zip bs (zip ks ds))) = ds"
  by (induction bs ks ds rule: list_induct3) (simp_all add: with_kd_def)

text \<open>The two columns that a successful \<open>compute_kd_recursive\<close> adds.\<close>

lemma kd_columns:
  assumes "compute_kd_recursive df n alpha = Inr out"
  shows "length out = length (bars df)"
    and "map K out = ewm_from alpha (None, 1) (rsv (bars df) n)"
    and "map D out = ewm_from alpha (None, 1) (map K out)"
proof -
  let ?Ks = "ewm_from alpha (None, 1) (rsv (bars df) n)"
  let ?Ds = "ewm_from alpha (None, 1) ?Ks"
  have out: "out = map (\<lambda>(b, k, d). with_kd b k d) (zip (bars df) (zip ?Ks ?Ds))"
    using assms by (simp add: compute_kd_recursive_def ewm_mean_def split: if_splits)
  show "length out = length (bars df)"
    by (simp add: out)
  show k: "map K out = ?Ks"
    unfolding out by (rule map_K_zip) simp_all
  show "map D out = ewm_from alpha (None, 1) (map K out)"
    unfolding k unfolding out by (rule map_D_zip) simp_all
qed

subsection \<open>Flat windows\<close>

lemma fdiv_None [simp]: "fdiv a None = None"
  by (cases a) simp_all

lemma denom_flat:
  assumes "i < length bs" and "highest_n bs n ! i = Some h" and "lowest_n bs n ! i = Some h"
  shows "denom bs n ! i = None"
  using assms by (simp add: denom_def)

lemma rsv_flat:
  assumes "i < length bs" and "highest_n bs n ! i = Some h" and "lowest_n bs n ! i = Some h"
  shows "rsv bs n ! i = None"
  using assms denom_flat [OF assms] by (simp add: rsv_def)

text \<open>An undefined input repeats the previous output of the pandas mean.\<close>

lemma ewm_from_nth_None:
  "i < length xs \<Longrightarrow> xs ! i = None \<Longrightarrow>
   ewm_from alpha acc xs ! i = (if i = 0 then fst acc else ewm_from alpha acc xs ! (i - 1))"
proof (induction xs arbitrary: acc i)
  case Nil
  then show ?case by simp
next
  case (Cons x xs)
  show ?case
  proof (cases i)
    case 0
    with Cons.prems show ?thesis by (cases acc; cases "fst acc") (auto simp: Let_def)
  next
    case (Suc j)
    with Cons.prems have j: "j < length xs" "xs ! j = None" by simp_all
    show ?thesis
      using Cons.IH [OF j, of "ewm_step alpha acc x"] Suc
      by (cases j) (simp_all add: Let_def)
  qed
qed

lemma ewm_step_seeded: "fst acc \<noteq> None \<Longrightarrow> fst (ewm_step alpha acc x) \<noteq> None"
  by (cases acc; cases "fst acc"; cases x) (auto simp: Let_def)

lemma ewm_from_seeded:
  "fst acc \<noteq> None \<Longrightarrow> i < length xs \<Longrightarrow> ewm_from alpha acc xs ! i \<noteq> None"
proof (induction xs arbitrary: acc i)
  case Nil
  then show ?case by simp
next
  case (Cons x xs)
  then show ?case
    using ewm_step_seeded [of acc alpha x]
    by (cases i) (simp_all add: Let_def)
qed

text \<open>The pandas mean is undefined exactly until the first defined input.\<close>

lemma ewm_from_unseeded:
  "i < length xs \<Longrightarrow>
   (ewm_from alpha (None, ow) xs ! i = None) = (\<forall>j\<le>i. xs ! j = None)"
proof (induction xs arbitrary: i)
  case Nil
  then show ?case by simp
next
  case (Cons x xs)
  show ?case
  proof (cases x)
    case None
    show ?thesis
    proof (cases i)
      case 0
      with None show ?thesis by simp
    next
      case (Suc k)
      with Cons.prems have k: "k < length xs" by simp
      have "(\<forall>j\<le>Suc k. (x # xs) ! j = None) = (\<forall>j\<le>k. xs ! j = None)"
        using None by (auto simp: nth_Cons split: nat.splits)
      with Cons.IH [OF k] None Suc show ?thesis by simp
    qed
  next
    case (Some a)
    have "ewm_from alpha (None, ow) (x # xs) ! i \<noteq> None"
      using Some Cons.prems ewm_from_seeded [of "(Some a, ow)" _ xs alpha]
      by (cases i) simp_all
    moreover have "\<not> (\<forall>j\<le>i. (x # xs) ! j = None)"
      using Some by (auto intro: exI [of _ 0])
    ultimately show ?thesis by blast
  qed
qed

subsection \<open>The pandas mean against the seeded fold\<close>

lemma ewm_step_gap_free_eq:
  "ewm_step alpha (Some k, 1) (Some x) = (Some (alpha * x + (1 - alpha) * k), 1)"
proof -
  have "k = x \<Longrightarrow> x = alpha * x + (1 - alpha) * x" by (simp add: algebra_simps)
  then show ?thesis by (auto simp: Let_def algebra_simps)
qed

lemma ewm_from_eq_spec:
  "gap_free (w \<noteq> None) xs \<Longrightarrow> ewm_from alpha (w, 1) xs = spec_recursive_mean alpha w xs"
proof (induction xs arbitrary: w)
  case Nil
  then show ?case by simp
next
  case (Cons x xs)
  show ?case
  proof (cases x)
    case None
    with Cons.prems have "w = None" "gap_free (None \<noteq> (None::pyfloat)) xs" by simp_all
    with Cons.IH [of None] None show ?thesis by simp
  next
    case (Some a)
    with Cons.prems have g: "gap_free True xs" by simp
    show ?thesis
    proof (cases w)
      case None
      with Cons.IH [of "Some a"] g Some show ?thesis by simp
    next
      case (Some k)
      with Cons.IH [of "Some (alpha * a + (1 - alpha) * k)"] g \<open>x = Some a\<close> show ?thesis
        by (simp only: ewm_from.simps ewm_step_gap_free_eq Let_def fst_conv
              spec_recursive_mean.simps)
           simp
    qed
  qed
qed

text \<open>The output of the pandas mean never has a gap, whatever its input.\<close>

lemma gap_free_ewm_from:
  "gap_free (fst acc \<noteq> None) (ewm_from alpha acc xs)"
proof (induction xs arbitrary: acc)
  case Nil
  then show ?case by simp
next
  case (Cons x xs)
  obtain w ow where acc: "acc = (w, ow)" by (cases acc)
  show ?case
    using Cons.IH [of "ewm_step alpha acc x"]
    by (cases w; cases x) (auto simp: acc Let_def)
qed

text \<open>The accumulators after a prefix of the series.\<close>

lemma ewm_from_nth_foldl:
  "i < length xs \<Longrightarrow>
   ewm_from alpha acc xs ! i = fst (foldl (ewm_step alpha) acc (take (Suc i) xs))"
proof (induction xs arbitrary: acc i)
  case Nil
  then show ?case by simp
next
  case (Cons x xs)
  then show ?case
    by (cases i) (simp_all add: Let_def)
qed

lemma ewm_step_weight:
  "(fst acc = None \<longrightarrow> snd acc = 1) \<Longrightarrow> snd (ewm_step alpha acc (Some a)) = 1"
  by (cases acc; cases "fst acc") (auto simp: Let_def)

lemma ewm_step_inv:
  "(fst acc = None \<longrightarrow> snd acc = 1) \<Longrightarrow>
   fst (ewm_step alpha acc x) = None \<longrightarrow> snd (ewm_step alpha acc x) = 1"
  by (cases acc; cases "fst acc"; cases x) (auto simp: Let_def)

lemma foldl_ewm_inv:
  "(fst acc = None \<longrightarrow> snd acc = 1) \<Longrightarrow>
   fst (foldl (ewm_step alpha) acc xs) = None \<longrightarrow> snd (foldl (ewm_step alpha) acc xs) = 1"
proof (induction xs arbitrary: acc)
  case Nil
  then show ?case by simp
next
  case (Cons x xs)
  show ?case
    using Cons.IH [OF ewm_step_inv [OF Cons.prems]] by simp
qed

lemma ewm_from_consecutive:
  assumes "Suc i < length xs" and "xs ! i = Some a" and "xs ! Suc i = Some b"
  shows "\<exists>k. ewm_from alpha (None, 1) xs ! i = Some k
             \<and> ewm_from alpha (None, 1) xs ! Suc i = Some (alpha * b + (1 - alpha) * k)"
proof -
  let ?pre = "foldl (ewm_step alpha) (None, 1) (take i xs)"
  let ?acc = "foldl (ewm_step alpha) (None, 1) (take (Suc i) xs)"
  have i: "i < length xs" using assms(1) by simp
  have acc: "?acc = ewm_step alpha ?pre (Some a)"
    using i assms(2) by (simp add: take_Suc_conv_app_nth)
  have inv: "fst ?pre = None \<longrightarrow> snd ?pre = 1"
    by (rule foldl_ewm_inv) simp
  have w: "snd ?acc = 1"
    unfolding acc by (rule ewm_step_weight [OF inv])
  have "fst ?acc \<noteq> None"
    unfolding acc by (cases ?pre; cases "fst ?pre") (auto simp: Let_def)
  then obtain k where k: "fst ?acc = Some k" by auto
  have acc': "?acc = (Some k, 1)"
    using k w by (cases ?acc) simp
  have "foldl (ewm_step alpha) (None, 1) (take (Suc (Suc i)) xs)
          = ewm_step alpha ?acc (Some b)"
    using assms(1,3) by (simp add: take_Suc_conv_app_nth [of "Suc i"])
  then have "ewm_from alpha (None, 1) xs ! Suc i = Some (alpha * b + (1 - alpha) * k)"
    using assms(1) by (simp only: ewm_from_nth_foldl acc' ewm_step_gap_free_eq fst_conv)
  moreover have "ewm_from alpha (None, 1) xs ! i = Some k"
    using i k by (simp add: ewm_from_nth_foldl)
  ultimately show ?thesis by blast
qed

subsection \<open>The example series\<close>

lemma kd_flat_gap: "compute_kd_recursive flat_gap 9 (1 / 3) = Inr flat_gap_kd"
  by code_simp

lemma kd_three_bars: "compute_kd_recursive three_bars 1 (1 / 2) = Inr three_bars_kd"
  by code_simp

lemma flat_gap_facts:
  "highest_n (bars flat_gap) 9 ! 9 = Some 5"
  "lowest_n (bars flat_gap) 9 ! 9 = Some 5"
  "rsv (bars flat_gap) 9 = replicate 8 None @ [Some 50, None, Some 100]"
  "K (flat_gap_kd ! 8) = Some 50"
  "K (flat_gap_kd ! 9) = Some 50"
  "K (flat_gap_kd ! 10) = Some (500 / 7)"
  "length (bars flat_gap) = 11"
  by code_simp+

lemma three_bars_facts:
  "rsv (bars three_bars) 1 = [Some 50, Some 40, Some 80]"
  "map K three_bars_kd = [Some 50, Some 45, Some (125 / 2)]"
  "map D three_bars_kd = [Some 50, Some (95 / 2), Some 55]"
  by code_simp+


subsection \<open>Claims about the indicator engine\<close>

text \<open>
  Claim C7. For finite reals \<open>Kp, Dp, Kc, Dc\<close> with \<open>Kp \<noteq> Dp\<close> or \<open>Kc \<noteq> Dc\<close>,
  \<open>crossed_up\<close> and \<open>crossed_down\<close> are never both true; \<open>crossed_up\<close> is true iff
  \<open>Kp \<le> Dp\<close> and \<open>Kc > Dc\<close>, and \<open>crossed_down\<close> is true iff \<open>Kp \<ge> Dp\<close> and
  \<open>Kc < Dc\<close>.
\<close>

theorem crossed_exclusive:
  "Kp \<noteq> Dp \<or> Kc \<noteq> Dc \<Longrightarrow>
     \<not> (crossed_up (Some Kp) (Some Dp) (Some Kc) (Some Dc)
        \<and> crossed_down (Some Kp) (Some Dp) (Some Kc) (Some Dc))
     \<and> crossed_up (Some Kp) (Some Dp) (Some Kc) (Some Dc) = (Kp \<le> Dp \<and> Kc > Dc)
     \<and> crossed_down (Some Kp) (Some Dp) (Some Kc) (Some Dc) = (Kp \<ge> Dp \<and> Kc < Dc)"
  by (auto simp: crossed_up_def crossed_down_def)

theorem crossed_exclusive_witness:
  "(48::real) \<noteq> 50
     \<and> crossed_up (Some 48) (Some 50) (Some 52) (Some 50)
     \<and> \<not> crossed_down (Some 48) (Some 50) (Some 52) (Some 50)"
  using crossed_exclusive [of 48 50 52 50] by simp

text \<open>
  Claim C3, as stated: at every position whose window is flat (highest high equal
  to lowest low) both RSV and K are undefined, and K stays undefined from there
  until reseeded. The statement fails for K: in \<open>flat_gap\<close> the window ending at
  position 9 is flat, RSV is undefined there, and K is 50, the value of position 8.
\<close>

theorem flat_window_k_defined:
  "compute_kd_recursive flat_gap 9 (1 / 3) = Inr flat_gap_kd
   \<and> highest_n (bars flat_gap) 9 ! 9 = Some 5
   \<and> lowest_n (bars flat_gap) 9 ! 9 = Some 5
   \<and> rsv (bars flat_gap) 9 ! 9 = None
   \<and> K (flat_gap_kd ! 9) = Some 50"
  by (simp add: kd_flat_gap flat_gap_facts nth_append)

text \<open>
  Claim C3, amended: at every position \<open>i\<close> whose window is flat, RSV is undefined
  (not zero). K at that position repeats K of the position before (it is the
  first position's undefined value when \<open>i = 0\<close>); so K is undefined there exactly
  when no RSV up to \<open>i\<close> is defined, and once K has a value a flat window leaves
  it at that value.
\<close>

theorem flat_window_rsv_undefined_k_carried:
  assumes "compute_kd_recursive df n alpha = Inr out"
    and "i < length (bars df)"
    and "highest_n (bars df) n ! i = Some h"
    and "lowest_n (bars df) n ! i = Some h"
  shows "rsv (bars df) n ! i = None
         \<and> K (out ! i) = (if i = 0 then None else K (out ! (i - 1)))
         \<and> ((K (out ! i) = None) = (\<forall>j\<le>i. rsv (bars df) n ! j = None))"
proof -
  let ?xs = "rsv (bars df) n"
  have r: "?xs ! i = None"
    using assms(2-4) by (rule rsv_flat)
  have len: "length out = length (bars df)"
    and ks: "map K out = ewm_from alpha (None, 1) ?xs"
    using kd_columns [OF assms(1)] by simp_all
  have nth: "K (out ! j) = ewm_from alpha (None, 1) ?xs ! j" if "j < length (bars df)" for j
    using that len nth_map [of j out K] by (simp add: ks)
  have "K (out ! i) = (if i = 0 then None else K (out ! (i - 1)))"
    using ewm_from_nth_None [of i ?xs alpha "(None, 1)"] r assms(2)
    by (simp add: nth)
  moreover have "(K (out ! i) = None) = (\<forall>j\<le>i. ?xs ! j = None)"
    using ewm_from_unseeded [of i ?xs alpha 1] assms(2) by (simp add: nth)
  ultimately show ?thesis using r by blast
qed

theorem flat_window_rsv_undefined_k_carried_witness:
  "compute_kd_recursive flat_gap 9 (1 / 3) = Inr flat_gap_kd
   \<and> 9 < length (bars flat_gap)
   \<and> highest_n (bars flat_gap) 9 ! 9 = Some 5
   \<and> lowest_n (bars flat_gap) 9 ! 9 = Some 5
   \<and> rsv (bars flat_gap) 9 ! 9 = None
   \<and> K (flat_gap_kd ! 9) = K (flat_gap_kd ! 8)
   \<and> K (flat_gap_kd ! 9) \<noteq> None"
proof -
  have len: "9 < length (bars flat_gap)"
    by (simp add: flat_gap_facts(7))
  have "rsv (bars flat_gap) 9 ! 9 = None
        \<and> K (flat_gap_kd ! 9) = (if (9::nat) = 0 then None else K (flat_gap_kd ! (9 - 1)))
        \<and> ((K (flat_gap_kd ! 9) = None) = (\<forall>j\<le>9. rsv (bars flat_gap) 9 ! j = None))"
    by (rule flat_window_rsv_undefined_k_carried
          [OF kd_flat_gap len flat_gap_facts(1) flat_gap_facts(2)])
  then have "rsv (bars flat_gap) 9 ! 9 = None" and "K (flat_gap_kd ! 9) = K (flat_gap_kd ! 8)"
    by simp_all
  moreover have "K (flat_gap_kd ! 9) \<noteq> None"
    by (simp add: flat_gap_facts(5))
  ultimately show ?thesis
    using kd_flat_gap len flat_gap_facts(1) flat_gap_facts(2) by blast
qed

text \<open>
  Claim C6, as stated: for every bar series \<open>K(i) = alpha * RSV(i) + (1 - alpha) * K(i-1)\<close>,
  seeded with the first defined RSV, and D is the same filter applied to K; the
  pandas mean equals the explicit seeded fold. The statement fails after a gap: in
  \<open>flat_gap\<close> RSV is 50, undefined, 100 at positions 8, 9, 10, K is 50 at positions
  8 and 9, and K at position 10 is \<open>500 / 7\<close>, not \<open>1/3 * 100 + 2/3 * 50\<close>; the K column
  is not the seeded fold of RSV.
\<close>

theorem gap_breaks_recursion:
  "compute_kd_recursive flat_gap 9 (1 / 3) = Inr flat_gap_kd
   \<and> rsv (bars flat_gap) 9 ! 10 = Some 100
   \<and> K (flat_gap_kd ! 9) = Some 50
   \<and> K (flat_gap_kd ! 10) = Some (500 / 7)
   \<and> K (flat_gap_kd ! 10) \<noteq> Some (1 / 3 * 100 + (1 - 1 / 3) * 50)
   \<and> map K flat_gap_kd \<noteq> spec_recursive_mean (1 / 3) None (rsv (bars flat_gap) 9)"
proof -
  have "map K flat_gap_kd ! 10 = Some (500 / 7)"
    by code_simp
  moreover have "spec_recursive_mean (1 / 3) None (rsv (bars flat_gap) 9) ! 10 = Some 100"
    by code_simp
  ultimately have "map K flat_gap_kd \<noteq> spec_recursive_mean (1 / 3) None (rsv (bars flat_gap) 9)"
    by auto
  then show ?thesis
    by (simp add: kd_flat_gap flat_gap_facts nth_append)
qed

text \<open>
  Claim C6, amended: for every bar series whose RSV has no undefined value after
  its first defined one, the K column is the explicit seeded fold of RSV
  (\<open>K(i) = alpha * RSV(i) + (1 - alpha) * K(i-1)\<close>, seeded with the first defined RSV,
  no initialisation at 50); for every bar series the D column is the same seeded
  fold, with the same \<open>alpha\<close>, of the K column; and in every bar series the
  recursion \<open>K(i+1) = alpha * RSV(i+1) + (1 - alpha) * K(i)\<close> holds wherever RSV is
  defined at both positions.
\<close>

theorem kd_is_seeded_recursion:
  assumes "compute_kd_recursive df n alpha = Inr out"
  shows "(gap_free False (rsv (bars df) n) \<longrightarrow>
            map K out = spec_recursive_mean alpha None (rsv (bars df) n))
         \<and> map D out = spec_recursive_mean alpha None (map K out)
         \<and> (\<forall>i a b. Suc i < length (bars df) \<and> rsv (bars df) n ! i = Some a
                    \<and> rsv (bars df) n ! Suc i = Some b \<longrightarrow>
                (\<exists>k. K (out ! i) = Some k
                     \<and> K (out ! Suc i) = Some (alpha * b + (1 - alpha) * k)))"
proof -
  have len: "length out = length (bars df)"
    and ks: "map K out = ewm_from alpha (None, 1) (rsv (bars df) n)"
    and ds: "map D out = ewm_from alpha (None, 1) (map K out)"
    using kd_columns [OF assms] by simp_all
  have nth: "K (out ! j) = ewm_from alpha (None, 1) (rsv (bars df) n) ! j"
    if "j < length (bars df)" for j
    using that len nth_map [of j out K] by (simp add: ks)
  have step: "\<exists>k. K (out ! i) = Some k
                  \<and> K (out ! Suc i) = Some (alpha * b + (1 - alpha) * k)"
    if "Suc i < length (bars df)" and "rsv (bars df) n ! i = Some a"
      and "rsv (bars df) n ! Suc i = Some b" for i a b
    using ewm_from_consecutive [of i "rsv (bars df) n" a b alpha] that
    by (simp add: nth)
  have "gap_free False (map K out)"
    using gap_free_ewm_from [of "(None, 1)" alpha "rsv (bars df) n"] by (simp add: ks)
  then have "map D out = spec_recursive_mean alpha None (map K out)"
    using ewm_from_eq_spec [of None "map K out" alpha] ds by simp
  moreover have "map K out = spec_recursive_mean alpha None (rsv (bars df) n)"
    if "gap_free False (rsv (bars df) n)"
    using that ewm_from_eq_spec [of None "rsv (bars df) n" alpha] ks by simp
  ultimately show ?thesis using step by blast
qed

theorem kd_is_seeded_recursion_witness:
  "compute_kd_recursive three_bars 1 (1 / 2) = Inr three_bars_kd
   \<and> gap_free False (rsv (bars three_bars) 1)
   \<and> map K three_bars_kd = spec_recursive_mean (1 / 2) None (rsv (bars three_bars) 1)
   \<and> map D three_bars_kd = spec_recursive_mean (1 / 2) None (map K three_bars_kd)
   \<and> map K three_bars_kd = [Some 50, Some 45, Some (125 / 2)]
   \<and> rsv (bars three_bars) 1 ! 0 = Some 50
   \<and> rsv (bars three_bars) 1 ! Suc 0 = Some 40
   \<and> K (three_bars_kd ! 0) = Some 50
   \<and> K (three_bars_kd ! Suc 0) = Some (1 / 2 * 40 + (1 - 1 / 2) * 50)"
proof -
  have pt: "rsv (bars three_bars) 1 ! 0 = Some 50" "rsv (bars three_bars) 1 ! Suc 0 = Some 40"
    "K (three_bars_kd ! 0) = Some 50"
    "K (three_bars_kd ! Suc 0) = Some (1 / 2 * 40 + (1 - 1 / 2) * 50)"
    by code_simp+
  have gf: "gap_free False (rsv (bars three_bars) 1)"
    by code_simp
  note t = kd_is_seeded_recursion [OF kd_three_bars]
  have "gap_free False (rsv (bars three_bars) 1) \<longrightarrow>
           map K three_bars_kd = spec_recursive_mean (1 / 2) None (rsv (bars three_bars) 1)"
    by (rule conjunct1 [OF t])
  moreover have "map D three_bars_kd = spec_recursive_mean (1 / 2) None (map K three_bars_kd)"
    by (rule conjunct1 [OF conjunct2 [OF t]])
  ultimately show ?thesis
    using gf kd_three_bars three_bars_facts(2) pt by blast
qed


section \<open>Signal state machine\<close>

subsection \<open>The rules, one at a time\<close>

lemma keys_differ: "ex_key cfg sg \<noteq> full_key cfg sg'"
  by (simp add: ex_key_def full_key_def)

lemma cross_exclusive: "entry_cross sg \<Longrightarrow> \<not> exit_cross sg"
  by (cases "k_last sg"; cases "d_last_d sg")
     (auto simp: entry_cross_def exit_cross_def crossed_up_def crossed_down_def)

lemma get_sym_state_upd [simp]: "get_sym_state (st(s \<mapsto> x)) s = x"
  by (simp add: get_sym_state_def)

lemma get_sym_state_frame: "st' s = st s \<Longrightarrow> get_sym_state st' s = get_sym_state st s"
  by (simp add: get_sym_state_def)

lemma get_alerts_upd [simp]:
  "get_alerts (x\<lparr>alerts := Some a\<rparr>) = a"
  "get_alerts (x\<lparr>position := p\<rparr>) = get_alerts x"
  "get_alerts (x\<lparr>last_entry := l\<rparr>) = get_alerts x"
  by (simp_all add: get_alerts_def)

lemma init_machine_sel [simp]:
  "cur_state (init_machine st s) = st"
  "cur_sym_state (init_machine st s) = get_sym_state st s"
  "cur_alerts (init_machine st s) = get_alerts (get_sym_state st s)"
  "trace (init_machine st s) = []"
  by (simp_all add: init_machine_def Let_def)

lemma entry_rule_sel:
  "cur_sym_state (entry_rule cfg s rc sg m)
     = (cur_sym_state m)\<lparr>position := Some ''long'',
                          last_entry := Some (ts_str cfg (d_ts sg))\<rparr>"
  "cur_state (entry_rule cfg s rc sg m)
     = (cur_state m)(s \<mapsto> cur_sym_state (entry_rule cfg s rc sg m))"
  "cur_alerts (entry_rule cfg s rc sg m) = cur_alerts m"
  "trace (entry_rule cfg s rc sg m)
     = trace m @ [SendTo rc Entry s, SaveState (cur_state (entry_rule cfg s rc sg m))]"
  by (simp_all add: entry_rule_def send_to_def save_state_def Let_def)

lemma reduce_rule_sel:
  "cur_alerts (reduce_rule cfg s rc sg m)
     = (if reduce_due cfg m sg then (cur_alerts m)(ex_key cfg sg \<mapsto> True) else cur_alerts m)"
  "cur_sym_state (reduce_rule cfg s rc sg m)
     = (if reduce_due cfg m sg
        then (cur_sym_state m)\<lparr>alerts := Some ((cur_alerts m)(ex_key cfg sg \<mapsto> True))\<rparr>
        else cur_sym_state m)"
  "cur_state (reduce_rule cfg s rc sg m)
     = (if reduce_due cfg m sg
        then (cur_state m)(s \<mapsto> cur_sym_state (reduce_rule cfg s rc sg m))
        else cur_state m)"
  "trace (reduce_rule cfg s rc sg m)
     = (if reduce_due cfg m sg
        then trace m @ [SendTo rc Reduce s, SaveState (cur_state (reduce_rule cfg s rc sg m))]
        else trace m)"
  by (simp_all add: reduce_rule_def mark_alert_def send_to_def save_state_def Let_def)

lemma exit_rule_sel:
  "cur_alerts (exit_rule cfg s rc sg m) = cur_alerts m"
  "cur_sym_state (exit_rule cfg s rc sg m)
     = (if exit_due cfg m sg then (cur_sym_state m)\<lparr>position := Some ''flat''\<rparr>
        else cur_sym_state m)"
  "cur_state (exit_rule cfg s rc sg m)
     = (if exit_due cfg m sg
        then (cur_state m)(s \<mapsto> cur_sym_state (exit_rule cfg s rc sg m))
        else cur_state m)"
  "trace (exit_rule cfg s rc sg m)
     = (if exit_due cfg m sg
        then trace m @ [SendTo rc Exit s, SaveState (cur_state (exit_rule cfg s rc sg m))]
        else trace m)"
  by (simp_all add: exit_rule_def send_to_def save_state_def Let_def)

text \<open>Marking the daily key does not change whether the weekly key has fired.\<close>

lemma exit_due_after_reduce:
  "exit_due cfg (reduce_rule cfg s rc sg m) sg = exit_due cfg m sg"
  using keys_differ [of cfg sg sg]
  by (simp add: exit_due_def reduce_rule_sel alerted_def Let_def)

subsection \<open>The rules together\<close>

lemma rules_sym_state:
  "cur_sym_state (rules cfg s rc st sg) =
     (if entry_due (init_machine st s) sg
      then (get_sym_state st s)\<lparr>position := Some ''long'',
                                 last_entry := Some (ts_str cfg (d_ts sg))\<rparr>
      else if reduce_due cfg (init_machine st s) sg
      then if exit_due cfg (init_machine st s) sg
           then (get_sym_state st s)
                  \<lparr>alerts := Some ((get_alerts (get_sym_state st s))(ex_key cfg sg \<mapsto> True)),
                   position := Some ''flat''\<rparr>
           else (get_sym_state st s)
                  \<lparr>alerts := Some ((get_alerts (get_sym_state st s))(ex_key cfg sg \<mapsto> True))\<rparr>
      else if exit_due cfg (init_machine st s) sg
           then (get_sym_state st s)\<lparr>position := Some ''flat''\<rparr>
           else get_sym_state st s)"
  by (simp add: rules_def Let_def entry_rule_sel exit_rule_sel reduce_rule_sel
        exit_due_after_reduce)

lemma rules_state:
  "cur_state (rules cfg s rc st sg) =
     (if entry_due (init_machine st s) sg \<or> reduce_due cfg (init_machine st s) sg
         \<or> exit_due cfg (init_machine st s) sg
      then st(s \<mapsto> cur_sym_state (rules cfg s rc st sg)) else st)"
  by (simp add: rules_def Let_def entry_rule_sel exit_rule_sel reduce_rule_sel
        exit_due_after_reduce)

lemma rules_trace:
  "trace (rules cfg s rc st sg) =
     (if entry_due (init_machine st s) sg
      then [SendTo rc Entry s, SaveState (cur_state (rules cfg s rc st sg))]
      else (if reduce_due cfg (init_machine st s) sg
            then [SendTo rc Reduce s,
                  SaveState (cur_state (reduce_rule cfg s rc sg (init_machine st s)))]
            else [])
           @ (if exit_due cfg (init_machine st s) sg
              then [SendTo rc Exit s, SaveState (cur_state (rules cfg s rc st sg))]
              else []))"
  by (simp add: rules_def Let_def entry_rule_sel exit_rule_sel reduce_rule_sel
        exit_due_after_reduce)

lemma rules_fired:
  "fired s (trace (rules cfg s rc st sg)) =
     (if entry_due (init_machine st s) sg then [Entry]
      else (if reduce_due cfg (init_machine st s) sg then [Reduce] else [])
           @ (if exit_due cfg (init_machine st s) sg then [Exit] else []))"
  by (simp add: rules_trace)

lemma fired_other: "s' \<noteq> s \<Longrightarrow> fired s (trace (rules cfg s' rc st sg)) = []"
  by (simp add: rules_trace)

lemma fired_append: "fired s (xs @ ys) = fired s xs @ fired s ys"
  by (induction s xs rule: fired.induct) auto

lemma get_sym_state_rules:
  "get_sym_state (cur_state (rules cfg s rc st sg)) s = cur_sym_state (rules cfg s rc st sg)"
  by (simp add: rules_state) (simp add: rules_sym_state)

lemma position_after_rules:
  "position (cur_sym_state (rules cfg s rc st sg)) =
     (if entry_due (init_machine st s) sg then Some ''long''
      else if exit_due cfg (init_machine st s) sg then Some ''flat''
      else position (get_sym_state st s))"
  by (simp add: rules_sym_state)

lemma rules_frame: "other \<noteq> s \<Longrightarrow> cur_state (rules cfg s rc st sg) other = st other"
  by (simp add: rules_state)

lemma reduce_frame:
  "other \<noteq> s \<Longrightarrow> cur_state (reduce_rule cfg s rc sg (init_machine st s)) other = st other"
  by (simp add: reduce_rule_sel)

lemma rules_saved_frame:
  "other \<noteq> s \<Longrightarrow> SaveState st' \<in> set (trace (rules cfg s rc st sg)) \<Longrightarrow> st' other = st other"
  by (auto simp: rules_trace rules_frame reduce_frame split: if_splits)

text \<open>After the rules have run, none of the three conditions holds any more.\<close>

lemma no_due_after_rules:
  "\<not> entry_due (init_machine (cur_state (rules cfg s rc st sg)) s) sg"
  "\<not> reduce_due cfg (init_machine (cur_state (rules cfg s rc st sg)) s) sg"
  "\<not> exit_due cfg (init_machine (cur_state (rules cfg s rc st sg)) s) sg"
  using keys_differ [of cfg sg sg] cross_exclusive [of sg]
  by (auto simp: get_sym_state_rules rules_sym_state entry_due_def reduce_due_def exit_due_def
        alerted_def Let_def)

lemma rules_quiet:
  "\<not> entry_due (init_machine st s) sg \<Longrightarrow> \<not> reduce_due cfg (init_machine st s) sg \<Longrightarrow>
   \<not> exit_due cfg (init_machine st s) sg \<Longrightarrow>
   trace (rules cfg s rc st sg) = [] \<and> cur_state (rules cfg s rc st sg) = st"
  by (simp add: rules_trace rules_state)

lemma rules_idem:
  "trace (rules cfg s rc (cur_state (rules cfg s rc st sg)) sg) = []"
  "cur_state (rules cfg s rc (cur_state (rules cfg s rc st sg)) sg)
     = cur_state (rules cfg s rc st sg)"
  using rules_quiet [OF no_due_after_rules] by blast+

text \<open>The alerts of one run of the rules and the position before and after.\<close>

lemma rules_summary:
  "(fired s (trace (rules cfg s rc st sg)) = []
      \<and> position (cur_sym_state (rules cfg s rc st sg)) = position (get_sym_state st s))
   \<or> (fired s (trace (rules cfg s rc st sg)) = [Entry]
      \<and> position (get_sym_state st s) = Some ''flat''
      \<and> position (cur_sym_state (rules cfg s rc st sg)) = Some ''long'')
   \<or> (fired s (trace (rules cfg s rc st sg)) = [Reduce]
      \<and> position (get_sym_state st s) = Some ''long''
      \<and> position (cur_sym_state (rules cfg s rc st sg)) = Some ''long'')
   \<or> (fired s (trace (rules cfg s rc st sg)) = [Exit]
      \<and> position (get_sym_state st s) = Some ''long''
      \<and> position (cur_sym_state (rules cfg s rc st sg)) = Some ''flat'')
   \<or> (fired s (trace (rules cfg s rc st sg)) = [Reduce, Exit]
      \<and> position (get_sym_state st s) = Some ''long''
      \<and> position (cur_sym_state (rules cfg s rc st sg)) = Some ''flat'')"
proof (cases "entry_due (init_machine st s) sg")
  case True
  then show ?thesis
    by (simp add: rules_fired position_after_rules) (simp add: entry_due_def)
next
  case ne: False
  show ?thesis
  proof (cases "exit_due cfg (init_machine st s) sg")
    case True
    then have "position (get_sym_state st s) = Some ''long''"
      by (simp add: exit_due_def Let_def)
    with ne True show ?thesis
      by (simp add: rules_fired position_after_rules)
  next
    case nx: False
    show ?thesis
    proof (cases "reduce_due cfg (init_machine st s) sg")
      case True
      then have "position (get_sym_state st s) = Some ''long''"
        by (simp add: reduce_due_def)
      with ne nx True show ?thesis
        by (simp add: rules_fired position_after_rules)
    next
      case False
      with ne nx show ?thesis
        by (simp add: rules_fired position_after_rules)
    qed
  qed
qed

subsection \<open>One evaluation\<close>

lemma process_symbol_rules:
  "indicators cfg df_d df_w = Inr (Some sg) \<Longrightarrow>
   process_symbol cfg s rc st (Inr df_d) (Inr df_w)
     = Inr \<lparr>events = trace (rules cfg s rc st sg),
            state_after = cur_state (rules cfg s rc st sg)\<rparr>"
  by (simp add: process_symbol_def Let_def)

lemma process_symbol_cases:
  assumes "process_symbol cfg s rc st fd fw = Inr out"
  obtains "out = \<lparr>events = [], state_after = st\<rparr>"
  | sg where "out = \<lparr>events = trace (rules cfg s rc st sg),
                     state_after = cur_state (rules cfg s rc st sg)\<rparr>"
  using assms
  by (auto simp: process_symbol_def Let_def split: sum.splits option.splits)

lemma step_summary:
  assumes "process_symbol cfg s rc st fd fw = Inr out"
  shows "(fired s (events out) = []
      \<and> position (get_sym_state (state_after out) s) = position (get_sym_state st s))
   \<or> (fired s (events out) = [Entry]
      \<and> position (get_sym_state st s) = Some ''flat''
      \<and> position (get_sym_state (state_after out) s) = Some ''long'')
   \<or> (fired s (events out) = [Reduce]
      \<and> position (get_sym_state st s) = Some ''long''
      \<and> position (get_sym_state (state_after out) s) = Some ''long'')
   \<or> (fired s (events out) = [Exit]
      \<and> position (get_sym_state st s) = Some ''long''
      \<and> position (get_sym_state (state_after out) s) = Some ''flat'')
   \<or> (fired s (events out) = [Reduce, Exit]
      \<and> position (get_sym_state st s) = Some ''long''
      \<and> position (get_sym_state (state_after out) s) = Some ''flat'')"
  using assms
proof (cases rule: process_symbol_cases)
  case 1
  then show ?thesis by simp
next
  case (2 sg)
  then show ?thesis
    using rules_summary [of s cfg rc st sg] by (simp add: get_sym_state_rules)
qed

text \<open>The outcome of an evaluation in which exactly one rule is due.\<close>

lemma outcome_entry:
  assumes "indicators cfg df_d df_w = Inr (Some sg)"
    and "entry_due (init_machine st s) sg"
  shows "process_symbol cfg s rc st (Inr df_d) (Inr df_w) =
     (let st' = st(s \<mapsto> (get_sym_state st s)
                   \<lparr>position := Some ''long'', last_entry := Some (ts_str cfg (d_ts sg))\<rparr>)
      in Inr \<lparr>events = [SendTo rc Entry s, SaveState st'], state_after = st'\<rparr>)"
  by (simp add: process_symbol_rules [OF assms(1)] rules_trace rules_state rules_sym_state
        assms(2) Let_def)

lemma outcome_reduce:
  assumes "indicators cfg df_d df_w = Inr (Some sg)"
    and "\<not> entry_due (init_machine st s) sg"
    and "reduce_due cfg (init_machine st s) sg"
    and "\<not> exit_due cfg (init_machine st s) sg"
  shows "process_symbol cfg s rc st (Inr df_d) (Inr df_w) =
     (let st' = st(s \<mapsto> (get_sym_state st s)
                   \<lparr>alerts := Some ((get_alerts (get_sym_state st s))(ex_key cfg sg \<mapsto> True))\<rparr>)
      in Inr \<lparr>events = [SendTo rc Reduce s, SaveState st'], state_after = st'\<rparr>)"
  by (simp add: process_symbol_rules [OF assms(1)] rules_trace rules_state rules_sym_state
        reduce_rule_sel assms(2-4) Let_def)

lemma outcome_exit:
  assumes "indicators cfg df_d df_w = Inr (Some sg)"
    and "\<not> entry_due (init_machine st s) sg"
    and "\<not> reduce_due cfg (init_machine st s) sg"
    and "exit_due cfg (init_machine st s) sg"
  shows "process_symbol cfg s rc st (Inr df_d) (Inr df_w) =
     (let st' = st(s \<mapsto> (get_sym_state st s)\<lparr>position := Some ''flat''\<rparr>)
      in Inr \<lparr>events = [SendTo rc Exit s, SaveState st'], state_after = st'\<rparr>)"
  by (simp add: process_symbol_rules [OF assms(1)] rules_trace rules_state rules_sym_state
        assms(2-4) Let_def)

subsection \<open>The batch driver\<close>

lemma step_entry_needs_exit:
  assumes "process_symbol cfg s' rc st fd fw = Inr out"
  shows "entry_needs_exit (position (get_sym_state st s) = Some ''long'')
           (fired s (events out) @ ks)
       = entry_needs_exit (position (get_sym_state (state_after out) s) = Some ''long'') ks"
proof (cases "s' = s")
  case False
  from assms show ?thesis
  proof (cases rule: process_symbol_cases)
    case 1
    then show ?thesis by simp
  next
    case (2 sg)
    with False have "get_sym_state (state_after out) s = get_sym_state st s"
      by (intro get_sym_state_frame) (simp add: rules_frame)
    with False 2 show ?thesis by (simp add: fired_other)
  qed
next
  case True
  with assms have a: "process_symbol cfg s rc st fd fw = Inr out" by simp
  from step_summary [OF a] show ?thesis
    by (elim disjE) simp_all
qed

lemma main_loop_Cons:
  "process_symbol cfg s' rc st fd fw = Inr out \<Longrightarrow>
   fst (main_loop cfg st ((s', rc, fd, fw) # jobs))
     = events out @ fst (main_loop cfg (state_after out) jobs)"
  by (simp split: prod.splits)

lemma main_loop_entry_needs_exit:
  "entry_needs_exit (position (get_sym_state st s) = Some ''long'')
     (fired s (fst (main_loop cfg st jobs)))"
proof (induction jobs arbitrary: st)
  case Nil
  then show ?case by simp
next
  case (Cons j jobs)
  obtain s' rc fd fw where j: "j = (s', rc, fd, fw)" by (cases j) auto
  show ?case
  proof (cases "process_symbol cfg s' rc st fd fw")
    case (Inl e)
    with j Cons.IH show ?thesis by simp
  next
    case (Inr out)
    show ?thesis
      using Cons.IH [of "state_after out"]
      by (simp only: j main_loop_Cons [OF Inr] fired_append step_entry_needs_exit [OF Inr])
  qed
qed


subsection \<open>The example evaluations\<close>

lemma ind_up_on: "indicators ex_cfg daily_up weekly_on = Inr (Some sg_up_on)"
  by code_simp

lemma ind_down_on: "indicators ex_cfg daily_down weekly_on = Inr (Some sg_down_on)"
  by code_simp

lemma ind_down_off: "indicators ex_cfg daily_down weekly_off = Inr (Some sg_down_off)"
  by code_simp

lemma sg_facts:
  "weekly_ok sg_up_on" "entry_cross sg_up_on" "daily_trend_ok sg_up_on"
  "weekly_ok sg_down_on" "exit_cross sg_down_on" "\<not> entry_cross sg_down_on"
  "\<not> weekly_ok sg_down_off" "exit_cross sg_down_off"
  by (simp_all add: sg_up_on_def sg_down_on_def sg_down_off_def weekly_ok_def entry_cross_def
        exit_cross_def daily_trend_ok_def crossed_up_def crossed_down_def)

lemma key_facts:
  "ex_key ex_cfg sg_down_on = ''daily_exit@2024-01-30''"
  "ex_key ex_cfg sg_down_off = ''daily_exit@2024-01-30''"
  "full_key ex_cfg sg_down_off = ''weekly_off@2024-01-29''"
  "ts_str ex_cfg (d_ts sg_up_on) = ''2024-01-30 00:00:00''"
  by (simp_all add: ex_key_def full_key_def ex_cfg_def ex_date_def ex_ts_def digit2_def
        sg_down_on_def sg_down_off_def sg_up_on_def)

lemma book_lookups:
  "get_sym_state book0 ''2330.TW''
     = \<lparr>position = Some ''flat'', alerts = Some Map.empty, last_entry = None\<rparr>"
  "get_sym_state book1 ''2330.TW''
     = \<lparr>position = Some ''long'', alerts = Some Map.empty,
        last_entry = Some ''2024-01-30 00:00:00''\<rparr>"
  "get_sym_state book2 ''2330.TW''
     = \<lparr>position = Some ''long'', alerts = Some [''daily_exit@2024-01-30'' \<mapsto> True],
        last_entry = Some ''2024-01-30 00:00:00''\<rparr>"
  "get_sym_state book3 ''2330.TW''
     = \<lparr>position = Some ''flat'', alerts = Some [''daily_exit@2024-01-30'' \<mapsto> True],
        last_entry = Some ''2024-01-30 00:00:00''\<rparr>"
  by (simp_all add: get_sym_state_def book0_def book1_def book2_def book3_def)

lemma sc_entry:
  "process_symbol ex_cfg ''2330.TW'' rc book0 (Inr daily_up) (Inr weekly_on)
     = Inr \<lparr>events = [SendTo rc Entry ''2330.TW'', SaveState book1], state_after = book1\<rparr>"
proof -
  have due: "entry_due (init_machine book0 ''2330.TW'') sg_up_on"
    by (simp add: entry_due_def book_lookups sg_facts)
  have st: "book0(''2330.TW'' \<mapsto> (get_sym_state book0 ''2330.TW'')
              \<lparr>position := Some ''long'', last_entry := Some (ts_str ex_cfg (d_ts sg_up_on))\<rparr>)
            = book1"
    by (simp add: book_lookups(1) key_facts(4) book1_def)
  show ?thesis
    using outcome_entry [OF ind_up_on due, of rc] by (simp only: st Let_def)
qed

lemma sc_reduce:
  "process_symbol ex_cfg ''2330.TW'' rc book1 (Inr daily_down) (Inr weekly_on)
     = Inr \<lparr>events = [SendTo rc Reduce ''2330.TW'', SaveState book2], state_after = book2\<rparr>"
proof -
  have due: "\<not> entry_due (init_machine book1 ''2330.TW'') sg_down_on"
    "reduce_due ex_cfg (init_machine book1 ''2330.TW'') sg_down_on"
    "\<not> exit_due ex_cfg (init_machine book1 ''2330.TW'') sg_down_on"
    by (simp_all add: entry_due_def reduce_due_def exit_due_def alerted_def book_lookups
          sg_facts get_alerts_def Let_def)
  have st: "book1(''2330.TW'' \<mapsto> (get_sym_state book1 ''2330.TW'')
              \<lparr>alerts := Some ((get_alerts (get_sym_state book1 ''2330.TW''))
                                 (ex_key ex_cfg sg_down_on \<mapsto> True))\<rparr>)
            = book2"
    by (simp add: book_lookups(2) key_facts(1) book1_def book2_def get_alerts_def)
  show ?thesis
    using outcome_reduce [OF ind_down_on due, of rc] by (simp only: st Let_def)
qed

lemma sc_exit:
  "process_symbol ex_cfg ''2330.TW'' rc book2 (Inr daily_down) (Inr weekly_off)
     = Inr \<lparr>events = [SendTo rc Exit ''2330.TW'', SaveState book3], state_after = book3\<rparr>"
proof -
  have due: "\<not> entry_due (init_machine book2 ''2330.TW'') sg_down_off"
    "\<not> reduce_due ex_cfg (init_machine book2 ''2330.TW'') sg_down_off"
    "exit_due ex_cfg (init_machine book2 ''2330.TW'') sg_down_off"
    by (simp_all add: entry_due_def reduce_due_def exit_due_def alerted_def book_lookups
          sg_facts key_facts get_alerts_def Let_def)
  have st: "book2(''2330.TW'' \<mapsto> (get_sym_state book2 ''2330.TW'')\<lparr>position := Some ''flat''\<rparr>)
            = book3"
    by (simp add: book_lookups(3) book2_def book3_def)
  show ?thesis
    using outcome_exit [OF ind_down_off due, of rc] by (simp only: st Let_def)
qed

subsection \<open>Claims about the per-symbol evaluation\<close>

text \<open>
  Claim C8. When the trimmed daily frame has fewer than
  \<open>max (DAILY_MA + 2) (K_PERIOD + 2)\<close> bars, or the weekly frame fewer than
  \<open>max (WEEKLY_MA + 2) (K_PERIOD + 2)\<close>, the evaluation returns normally (no
  exception reaches the batch driver), sends no alert, saves nothing and leaves the
  store as it was.
\<close>

theorem insufficient_history_skips:
  "length (bars df_d) < max (DAILY_MA cfg + 2) (K_PERIOD cfg + 2)
     \<or> length (bars df_w) < max (WEEKLY_MA cfg + 2) (K_PERIOD cfg + 2) \<Longrightarrow>
   process_symbol cfg symbol recipients st (Inr df_d) (Inr df_w)
     = Inr \<lparr>events = [], state_after = st\<rparr>"
  by (simp add: process_symbol_def indicators_def Let_def)

theorem insufficient_history_skips_witness:
  "length (bars short_frame) < max (DAILY_MA ex_cfg + 2) (K_PERIOD ex_cfg + 2)
   \<and> process_symbol ex_cfg ''2330.TW'' {''U1''} book1 (Inr short_frame) (Inr weekly_on)
       = Inr \<lparr>events = [], state_after = book1\<rparr>"
proof -
  have short: "length (bars short_frame) < max (DAILY_MA ex_cfg + 2) (K_PERIOD ex_cfg + 2)"
    by (simp add: short_frame_def series_def ex_cfg_def)
  then show ?thesis
    using insufficient_history_skips [of short_frame ex_cfg weekly_on "''2330.TW''" "{''U1''}" book1]
    by blast
qed

text \<open>
  Claim C4. When the evaluation reaches the rules with the stored position flat
  and \<open>weekly_ok\<close>, \<open>entry_cross\<close> and \<open>daily_trend_ok\<close> all true, it sends the Entry
  alert, sets the position to long and \<open>last_entry\<close> to the text of the current daily
  bar's timestamp, saves the store at once, and does nothing else: the effects are
  exactly that one alert and that one save.
\<close>

theorem entry_fires:
  assumes "indicators cfg df_d df_w = Inr (Some sg)"
    and "position (get_sym_state st symbol) = Some ''flat''"
    and "weekly_ok sg" and "entry_cross sg" and "daily_trend_ok sg"
  shows "process_symbol cfg symbol recipients st (Inr df_d) (Inr df_w) =
     (let st' = st(symbol \<mapsto> (get_sym_state st symbol)
                    \<lparr>position := Some ''long'', last_entry := Some (ts_str cfg (d_ts sg))\<rparr>)
      in Inr \<lparr>events = [SendTo recipients Entry symbol, SaveState st'], state_after = st'\<rparr>)"
proof -
  have "entry_due (init_machine st symbol) sg"
    using assms(2-5) by (simp add: entry_due_def)
  with assms(1) show ?thesis
    by (rule outcome_entry)
qed

theorem entry_fires_witness:
  "indicators ex_cfg daily_up weekly_on = Inr (Some sg_up_on)
   \<and> position (get_sym_state book0 ''2330.TW'') = Some ''flat''
   \<and> weekly_ok sg_up_on \<and> entry_cross sg_up_on \<and> daily_trend_ok sg_up_on
   \<and> process_symbol ex_cfg ''2330.TW'' {''U1''} book0 (Inr daily_up) (Inr weekly_on)
       = Inr \<lparr>events = [SendTo {''U1''} Entry ''2330.TW'', SaveState book1],
              state_after = book1\<rparr>"
proof -
  have flat: "position (get_sym_state book0 ''2330.TW'') = Some ''flat''"
    by (simp add: book_lookups(1))
  have st: "book0(''2330.TW'' \<mapsto> (get_sym_state book0 ''2330.TW'')
              \<lparr>position := Some ''long'', last_entry := Some (ts_str ex_cfg (d_ts sg_up_on))\<rparr>)
            = book1"
    by (simp add: book_lookups(1) key_facts(4) book1_def)
  have "process_symbol ex_cfg ''2330.TW'' {''U1''} book0 (Inr daily_up) (Inr weekly_on)
       = Inr \<lparr>events = [SendTo {''U1''} Entry ''2330.TW'', SaveState book1],
              state_after = book1\<rparr>"
    using entry_fires [OF ind_up_on flat sg_facts(1) sg_facts(2) sg_facts(3), of "{''U1''}"]
    by (simp only: st Let_def)
  with ind_up_on flat sg_facts(1) sg_facts(2) sg_facts(3) show ?thesis
    by blast
qed

text \<open>
  Claim C1, on the code: with the stored position long, \<open>weekly_ok\<close> false and the
  key \<open>weekly_off@2024-01-29\<close> not fired, the evaluation sends the Exit alert, sets
  the position to flat and saves the store, but the alerts mapping of the saved
  store still has no entry for \<open>weekly_off@2024-01-29\<close>: the Exit branch never
  marks its key.
\<close>

theorem exit_leaves_key_unmarked:
  "indicators ex_cfg daily_down weekly_off = Inr (Some sg_down_off)
   \<and> position (get_sym_state book2 ''2330.TW'') = Some ''long''
   \<and> \<not> weekly_ok sg_down_off
   \<and> full_key ex_cfg sg_down_off = ''weekly_off@2024-01-29''
   \<and> \<not> alerted (init_machine book2 ''2330.TW'') ''weekly_off@2024-01-29''
   \<and> process_symbol ex_cfg ''2330.TW'' {''U1''} book2 (Inr daily_down) (Inr weekly_off)
       = Inr \<lparr>events = [SendTo {''U1''} Exit ''2330.TW'', SaveState book3],
              state_after = book3\<rparr>
   \<and> position (get_sym_state book3 ''2330.TW'') = Some ''flat''
   \<and> get_alerts (get_sym_state book3 ''2330.TW'') ''weekly_off@2024-01-29'' = None
   \<and> \<not> alerted (init_machine book3 ''2330.TW'') ''weekly_off@2024-01-29''"
  by (simp add: ind_down_off sg_facts(7) key_facts(3) sc_exit book_lookups alerted_def
        get_alerts_def)

text \<open>
  Claim C2. For every store and every fixed inputs, an evaluation that returns
  normally, run a second time on the store it produced and with the same inputs,
  sends no alert, saves nothing and leaves the store unchanged.
\<close>

theorem second_run_is_silent:
  assumes "process_symbol cfg symbol recipients st fd fw = Inr out"
  shows "process_symbol cfg symbol recipients (state_after out) fd fw
           = Inr \<lparr>events = [], state_after = state_after out\<rparr>"
proof (cases fd)
  case (Inl e)
  with assms show ?thesis by (simp add: process_symbol_def)
next
  case fd: (Inr df_d)
  show ?thesis
  proof (cases fw)
    case (Inl e)
    with assms fd show ?thesis by (simp add: process_symbol_def)
  next
    case fw: (Inr df_w)
    show ?thesis
    proof (cases "indicators cfg df_d df_w")
      case (Inl e)
      with assms fd fw show ?thesis by (simp add: process_symbol_def)
    next
      case ind: (Inr r)
      show ?thesis
      proof (cases r)
        case None
        with assms fd fw ind show ?thesis by (auto simp: process_symbol_def)
      next
        case (Some sg)
        with assms fd fw ind
        have "state_after out = cur_state (rules cfg symbol recipients st sg)"
          by (auto simp: process_symbol_def Let_def)
        with fd fw ind Some show ?thesis
          by (simp add: process_symbol_def Let_def rules_idem)
      qed
    qed
  qed
qed

theorem second_run_is_silent_witness:
  "process_symbol ex_cfg ''2330.TW'' {''U1''} book1 (Inr daily_down) (Inr weekly_on)
     = Inr \<lparr>events = [SendTo {''U1''} Reduce ''2330.TW'', SaveState book2],
            state_after = book2\<rparr>
   \<and> process_symbol ex_cfg ''2330.TW'' {''U1''} book2 (Inr daily_down) (Inr weekly_on)
       = Inr \<lparr>events = [], state_after = book2\<rparr>"
  using second_run_is_silent [OF sc_reduce [of "{''U1''}"]] sc_reduce [of "{''U1''}"]
  by simp

text \<open>
  Claim C9. In every evaluation for a symbol that returns normally, the entry of
  every other symbol is the same in the final store, and in every store that was
  saved on the way, as in the store the evaluation started with.
\<close>

theorem other_symbols_untouched:
  assumes "process_symbol cfg symbol recipients st fd fw = Inr out" and "other \<noteq> symbol"
  shows "state_after out other = st other
         \<and> (\<forall>st'. SaveState st' \<in> set (events out) \<longrightarrow> st' other = st other)"
  using assms(1)
proof (cases rule: process_symbol_cases)
  case 1
  then show ?thesis by simp
next
  case (2 sg)
  with assms(2) show ?thesis
    by (auto simp: rules_frame dest: rules_saved_frame)
qed

theorem other_symbols_untouched_witness:
  "process_symbol ex_cfg ''2330.TW'' {''U1''} book1 (Inr daily_down) (Inr weekly_on)
     = Inr \<lparr>events = [SendTo {''U1''} Reduce ''2330.TW'', SaveState book2],
            state_after = book2\<rparr>
   \<and> ''2317.TW'' \<noteq> ''2330.TW''
   \<and> SaveState book2 \<in> set [SendTo {''U1''} Reduce ''2330.TW'', SaveState book2]
   \<and> book2 ''2317.TW'' = book1 ''2317.TW''
   \<and> book1 ''2317.TW'' = Some other_state"
proof -
  have ne: "''2317.TW'' \<noteq> ''2330.TW''" by simp
  have "book1 ''2317.TW'' = Some other_state"
    by (simp add: book1_def book0_def)
  with other_symbols_untouched [OF sc_reduce [of "{''U1''}"] ne] sc_reduce [of "{''U1''}"] ne
  show ?thesis by simp
qed

text \<open>
  Claim C5. In every evaluation that returns normally: if the position of the
  symbol changes, then either it was flat, is now long and exactly the Entry alert
  was sent, or it was long, is now flat and an Exit alert was sent; an Entry alert
  is sent only from flat and leaves the position long; an Exit alert is sent only
  from long and leaves the position flat; an evaluation that sends only a Reduce
  alert leaves the position as it was. And over any sequence of evaluations of the
  batch driver, no Entry alert for a symbol follows an Entry alert for it without
  an Exit alert for it in between (nor is one sent while the starting position is
  long).
\<close>

theorem position_transitions:
  "(process_symbol cfg s rc st fd fw = Inr out \<longrightarrow>
      (position (get_sym_state (state_after out) s) \<noteq> position (get_sym_state st s) \<longrightarrow>
         (position (get_sym_state st s) = Some ''flat''
            \<and> position (get_sym_state (state_after out) s) = Some ''long''
            \<and> fired s (events out) = [Entry])
         \<or> (position (get_sym_state st s) = Some ''long''
            \<and> position (get_sym_state (state_after out) s) = Some ''flat''
            \<and> Exit \<in> set (fired s (events out))))
      \<and> (Entry \<in> set (fired s (events out)) \<longrightarrow>
           position (get_sym_state st s) = Some ''flat''
           \<and> position (get_sym_state (state_after out) s) = Some ''long'')
      \<and> (Exit \<in> set (fired s (events out)) \<longrightarrow>
           position (get_sym_state st s) = Some ''long''
           \<and> position (get_sym_state (state_after out) s) = Some ''flat'')
      \<and> (fired s (events out) = [Reduce] \<longrightarrow>
           position (get_sym_state (state_after out) s) = position (get_sym_state st s)))
   \<and> entry_needs_exit (position (get_sym_state st s) = Some ''long'')
        (fired s (fst (main_loop cfg st jobs)))"
proof (rule conjI)
  show "entry_needs_exit (position (get_sym_state st s) = Some ''long'')
        (fired s (fst (main_loop cfg st jobs)))"
    by (rule main_loop_entry_needs_exit)
next
  show "process_symbol cfg s rc st fd fw = Inr out \<longrightarrow>
      (position (get_sym_state (state_after out) s) \<noteq> position (get_sym_state st s) \<longrightarrow>
         (position (get_sym_state st s) = Some ''flat''
            \<and> position (get_sym_state (state_after out) s) = Some ''long''
            \<and> fired s (events out) = [Entry])
         \<or> (position (get_sym_state st s) = Some ''long''
            \<and> position (get_sym_state (state_after out) s) = Some ''flat''
            \<and> Exit \<in> set (fired s (events out))))
      \<and> (Entry \<in> set (fired s (events out)) \<longrightarrow>
           position (get_sym_state st s) = Some ''flat''
           \<and> position (get_sym_state (state_after out) s) = Some ''long'')
      \<and> (Exit \<in> set (fired s (events out)) \<longrightarrow>
           position (get_sym_state st s) = Some ''long''
           \<and> position (get_sym_state (state_after out) s) = Some ''flat'')
      \<and> (fired s (events out) = [Reduce] \<longrightarrow>
           position (get_sym_state (state_after out) s) = position (get_sym_state st s))"
  proof
    assume "process_symbol cfg s rc st fd fw = Inr out"
    from step_summary [OF this]
    show "(position (get_sym_state (state_after out) s) \<noteq> position (get_sym_state st s) \<longrightarrow>
         (position (get_sym_state st s) = Some ''flat''
            \<and> position (get_sym_state (state_after out) s) = Some ''long''
            \<and> fired s (events out) = [Entry])
         \<or> (position (get_sym_state st s) = Some ''long''
            \<and> position (get_sym_state (state_after out) s) = Some ''flat''
            \<and> Exit \<in> set (fired s (events out))))
      \<and> (Entry \<in> set (fired s (events out)) \<longrightarrow>
           position (get_sym_state st s) = Some ''flat''
           \<and> position (get_sym_state (state_after out) s) = Some ''long'')
      \<and> (Exit \<in> set (fired s (events out)) \<longrightarrow>
           position (get_sym_state st s) = Some ''long''
           \<and> position (get_sym_state (state_after out) s) = Some ''flat'')
      \<and> (fired s (events out) = [Reduce] \<longrightarrow>
           position (get_sym_state (state_after out) s) = position (get_sym_state st s))"
      by (elim disjE) simp_all
  qed
qed

theorem position_transitions_witness:
  "process_symbol ex_cfg ''2330.TW'' {''U1''} book0 (Inr daily_up) (Inr weekly_on)
     = Inr \<lparr>events = [SendTo {''U1''} Entry ''2330.TW'', SaveState book1], state_after = book1\<rparr>
   \<and> Entry \<in> set (fired ''2330.TW'' [SendTo {''U1''} Entry ''2330.TW'', SaveState book1])
   \<and> position (get_sym_state book0 ''2330.TW'') = Some ''flat''
   \<and> position (get_sym_state book1 ''2330.TW'') = Some ''long''
   \<and> process_symbol ex_cfg ''2330.TW'' {''U1''} book1 (Inr daily_down) (Inr weekly_on)
       = Inr \<lparr>events = [SendTo {''U1''} Reduce ''2330.TW'', SaveState book2],
              state_after = book2\<rparr>
   \<and> fired ''2330.TW'' [SendTo {''U1''} Reduce ''2330.TW'', SaveState book2] = [Reduce]
   \<and> position (get_sym_state book2 ''2330.TW'') = position (get_sym_state book1 ''2330.TW'')
   \<and> process_symbol ex_cfg ''2330.TW'' {''U1''} book2 (Inr daily_down) (Inr weekly_off)
       = Inr \<lparr>events = [SendTo {''U1''} Exit ''2330.TW'', SaveState book3],
              state_after = book3\<rparr>
   \<and> Exit \<in> set (fired ''2330.TW'' [SendTo {''U1''} Exit ''2330.TW'', SaveState book3])
   \<and> position (get_sym_state book3 ''2330.TW'') \<noteq> position (get_sym_state book2 ''2330.TW'')
   \<and> position (get_sym_state book2 ''2330.TW'') = Some ''long''
   \<and> position (get_sym_state book3 ''2330.TW'') = Some ''flat''
   \<and> fired ''2330.TW''
        (fst (main_loop ex_cfg book0
           [(''2330.TW'', {''U1''}, Inr daily_up, Inr weekly_on),
            (''2330.TW'', {''U1''}, Inr daily_down, Inr weekly_on),
            (''2330.TW'', {''U1''}, Inr daily_down, Inr weekly_off),
            (''2330.TW'', {''U1''}, Inr daily_down, Inr weekly_off)]))
       = [Entry, Reduce, Exit]
   \<and> entry_needs_exit (position (get_sym_state book0 ''2330.TW'') = Some ''long'')
        (fired ''2330.TW''
          (fst (main_loop ex_cfg book0
             [(''2330.TW'', {''U1''}, Inr daily_up, Inr weekly_on),
              (''2330.TW'', {''U1''}, Inr daily_down, Inr weekly_on),
              (''2330.TW'', {''U1''}, Inr daily_down, Inr weekly_off),
              (''2330.TW'', {''U1''}, Inr daily_down, Inr weekly_off)])))"
proof -
  have quiet: "process_symbol ex_cfg ''2330.TW'' {''U1''} book3 (Inr daily_down) (Inr weekly_off)
     = Inr \<lparr>events = [], state_after = book3\<rparr>"
    using rules_idem [of ex_cfg "''2330.TW''" "{''U1''}" book2 sg_down_off]
      sc_exit [of "{''U1''}"]
    by (simp add: process_symbol_rules [OF ind_down_off])
  have run: "fired ''2330.TW''
        (fst (main_loop ex_cfg book0
           [(''2330.TW'', {''U1''}, Inr daily_up, Inr weekly_on),
            (''2330.TW'', {''U1''}, Inr daily_down, Inr weekly_on),
            (''2330.TW'', {''U1''}, Inr daily_down, Inr weekly_off),
            (''2330.TW'', {''U1''}, Inr daily_down, Inr weekly_off)]))
       = [Entry, Reduce, Exit]"
    by (simp add: sc_entry sc_reduce sc_exit quiet)
  have chain: "entry_needs_exit (position (get_sym_state book0 ''2330.TW'') = Some ''long'')
        (fired ''2330.TW''
          (fst (main_loop ex_cfg book0
             [(''2330.TW'', {''U1''}, Inr daily_up, Inr weekly_on),
              (''2330.TW'', {''U1''}, Inr daily_down, Inr weekly_on),
              (''2330.TW'', {''U1''}, Inr daily_down, Inr weekly_off),
              (''2330.TW'', {''U1''}, Inr daily_down, Inr weekly_off)])))"
    by (rule conjunct2 [OF position_transitions])
  have en: "Entry \<in> set (fired ''2330.TW'' [SendTo {''U1''} Entry ''2330.TW'', SaveState book1])"
    by simp
  have re: "fired ''2330.TW'' [SendTo {''U1''} Reduce ''2330.TW'', SaveState book2] = [Reduce]"
    by simp
  have ex: "Exit \<in> set (fired ''2330.TW'' [SendTo {''U1''} Exit ''2330.TW'', SaveState book3])"
    by simp
  note step_en = conjunct1 [OF position_transitions, THEN mp, OF sc_entry [of "{''U1''}"]]
  note step_re = conjunct1 [OF position_transitions, THEN mp, OF sc_reduce [of "{''U1''}"]]
  note step_ex = conjunct1 [OF position_transitions, THEN mp, OF sc_exit [of "{''U1''}"]]
  have "Entry \<in> set (fired ''2330.TW'' [SendTo {''U1''} Entry ''2330.TW'', SaveState book1]) \<longrightarrow>
         position (get_sym_state book0 ''2330.TW'') = Some ''flat''
         \<and> position (get_sym_state book1 ''2330.TW'') = Some ''long''"
    using step_en unfolding outcome.select_convs by (elim conjE)
  with en have pos_en: "position (get_sym_state book0 ''2330.TW'') = Some ''flat''"
    "position (get_sym_state book1 ''2330.TW'') = Some ''long''"
    by blast+
  have "fired ''2330.TW'' [SendTo {''U1''} Reduce ''2330.TW'', SaveState book2] = [Reduce] \<longrightarrow>
         position (get_sym_state book2 ''2330.TW'') = position (get_sym_state book1 ''2330.TW'')"
    using step_re unfolding outcome.select_convs by (elim conjE)
  with re have pos_re: "position (get_sym_state book2 ''2330.TW'')
                          = position (get_sym_state book1 ''2330.TW'')"
    by blast
  have "Exit \<in> set (fired ''2330.TW'' [SendTo {''U1''} Exit ''2330.TW'', SaveState book3]) \<longrightarrow>
         position (get_sym_state book2 ''2330.TW'') = Some ''long''
         \<and> position (get_sym_state book3 ''2330.TW'') = Some ''flat''"
    using step_ex unfolding outcome.select_convs by (elim conjE)
  with ex have pos: "position (get_sym_state book2 ''2330.TW'') = Some ''long''"
    "position (get_sym_state book3 ''2330.TW'') = Some ''flat''"
    by blast+
  then have neq: "position (get_sym_state book3 ''2330.TW'')
                   \<noteq> position (get_sym_state book2 ''2330.TW'')"
    by simp
  show ?thesis
    by (intro conjI)
       (rule sc_entry sc_reduce sc_exit en re ex pos_en pos_re neq pos run chain)+
qed

subsection \<open>Claim about the state store\<close>

text \<open>
  Claim C10. \<open>load_state\<close> never raises: whatever it finds it returns a store; when
  the file is absent, or opening or parsing it raises, the store is empty, and in
  an empty store every symbol is flat with no fired alert key.
\<close>

theorem load_state_total:
  "(\<exists>st. load_state f = Inr st)
   \<and> load_state NoFile = Inr Map.empty
   \<and> load_state (Unreadable e) = Inr Map.empty
   \<and> position (get_sym_state Map.empty symbol) = Some ''flat''
   \<and> \<not> alerted (init_machine Map.empty symbol) key"
  by (cases f) (simp_all add: load_state_def get_sym_state_def get_alerts_def alerted_def)

end
